theory Spec2Isabelle
  imports Complex_Main "HOL-Library.Word" "HOL-Library.Signed_Division" "HOL-Library.Multiset"
begin

section \<open>Machine integers and failures\<close>

text \<open>
  The engine's coordinates are C++ \<^verbatim>\<open>int\<close> values. They are modelled as 32-bit words:
  \<open>+\<close>, \<open>-\<close> and unary minus wrap around, comparisons read the word as two's
  complement (\<open><s\<close>, \<open>\<le>s\<close>), and \<^verbatim>\<open>/\<close> truncates towards zero.
\<close>

type_synonym int32 = "32 word"

text \<open>\<^verbatim>\<open>abs(x)\<close> on an int (Engine\_Structure.h uses it on widths and heights).\<close>

definition abs_c :: "int32 \<Rightarrow> int32" where
  "abs_c x = (if x <s 0 then - x else x)"

text \<open>The C++ operator \<^verbatim>\<open>/\<close> on two ints: the quotient truncated towards zero.\<close>

definition div_c :: "int32 \<Rightarrow> int32 \<Rightarrow> int32" where
  "div_c a b = word_of_int (sint a sdiv sint b)"

text \<open>
  What a call can end in besides a value: the exception thrown by the Game Scene
  constructors, and the two kinds of undefined behaviour the modelled code can reach
  (a member call through a null pointer, \<^verbatim>\<open>operator[]\<close> outside a vector).
\<close>

datatype error = runtime_error string | NullDereference | IndexOutOfRange

section \<open>Engine\_Structure.h: Point, Size, Rectangle\<close>

record Point =
  X :: int32
  Y :: int32

record Size =
  Width :: int32
  Height :: int32

record Rectangle =
  X :: int32
  Y :: int32
  Width :: int32
  Height :: int32

datatype RectangleAlignment =
  TopLeft | TopCenter | TopRight
  | MiddleLeft | MiddleCenter | MiddleRight
  | BottomLeft | BottomCenter | BottomRight

definition Point_Zero :: Point where
  "Point_Zero = \<lparr>Point.X = 0, Point.Y = 0\<rparr>"

definition Size_Zero :: Size where
  "Size_Zero = \<lparr>Size.Width = 0, Size.Height = 0\<rparr>"

text \<open>\<^verbatim>\<open>Rectangle(const Point& p, const Size& s)\<close>\<close>

definition Rectangle_of :: "Point \<Rightarrow> Size \<Rightarrow> Rectangle" where
  "Rectangle_of p s =
     \<lparr>X = Point.X p, Y = Point.Y p, Width = Size.Width s, Height = Size.Height s\<rparr>"

text \<open>\<^verbatim>\<open>Point& operator-=(const Point& p)\<close>\<close>

definition Point_minus :: "Point \<Rightarrow> Point \<Rightarrow> Point" where
  "Point_minus a b = \<lparr>Point.X = Point.X a - Point.X b, Point.Y = Point.Y a - Point.Y b\<rparr>"

definition LeftSide :: "Rectangle \<Rightarrow> int32" where
  "LeftSide r = (if Width r <s 0 then X r + Width r + 1 else X r)"

definition RightSide :: "Rectangle \<Rightarrow> int32" where
  "RightSide r = (if 0 <s Width r then X r + Width r - 1 else X r)"

definition TopSide :: "Rectangle \<Rightarrow> int32" where
  "TopSide r = (if Height r <s 0 then Y r + Height r + 1 else Y r)"

definition BottomSide :: "Rectangle \<Rightarrow> int32" where
  "BottomSide r = (if 0 <s Height r then Y r + Height r - 1 else Y r)"

text \<open>\<^verbatim>\<open>Point TopLeft() const\<close> (the corner, not the alignment value).\<close>

definition TopLeft_corner :: "Rectangle \<Rightarrow> Point" where
  "TopLeft_corner r = \<lparr>Point.X = LeftSide r, Point.Y = TopSide r\<rparr>"

text \<open>\<^verbatim>\<open>bool IsContain(const Point& p) const\<close>\<close>

definition IsContain :: "Rectangle \<Rightarrow> Point \<Rightarrow> bool" where
  "IsContain r p =
     (LeftSide r \<le>s Point.X p \<and> Point.X p \<le>s RightSide r
      \<and> TopSide r \<le>s Point.Y p \<and> Point.Y p \<le>s BottomSide r)"

text \<open>
  \<^verbatim>\<open>Rectangle LocalToGlobal(const Rectangle& LocalRectangle, RectangleAlignment Alignment)\<close>:
  the receiver is the parent rectangle \<open>r\<close>. The \<^verbatim>\<open>switch\<close> has one case for each
  alignment but \<open>TopLeft\<close>, which takes the \<^verbatim>\<open>default\<close> branch.
\<close>

fun LocalToGlobal :: "Rectangle \<Rightarrow> Rectangle \<Rightarrow> RectangleAlignment \<Rightarrow> Rectangle" where
  "LocalToGlobal r l TopCenter =
     \<lparr>X = LeftSide r + LeftSide l + div_c (abs_c (Width r) - abs_c (Width l)) 2,
      Y = TopSide r + TopSide l,
      Width = abs_c (Width l), Height = abs_c (Height l)\<rparr>"
| "LocalToGlobal r l TopRight =
     \<lparr>X = LeftSide r + LeftSide l + (abs_c (Width r) - abs_c (Width l)),
      Y = TopSide r + TopSide l,
      Width = abs_c (Width l), Height = abs_c (Height l)\<rparr>"
| "LocalToGlobal r l MiddleLeft =
     \<lparr>X = LeftSide r + LeftSide l,
      Y = TopSide r + TopSide l + div_c (abs_c (Height r) - abs_c (Height l)) 2,
      Width = abs_c (Width l), Height = abs_c (Height l)\<rparr>"
| "LocalToGlobal r l MiddleCenter =
     \<lparr>X = LeftSide r + LeftSide l + div_c (abs_c (Width r) - abs_c (Width l)) 2,
      Y = TopSide r + TopSide l + div_c (abs_c (Height r) - abs_c (Height l)) 2,
      Width = abs_c (Width l), Height = abs_c (Height l)\<rparr>"
| "LocalToGlobal r l MiddleRight =
     \<lparr>X = LeftSide r + LeftSide l + (abs_c (Width r) - abs_c (Width l)),
      Y = TopSide r + TopSide l + div_c (abs_c (Height r) - abs_c (Height l)) 2,
      Width = abs_c (Width l), Height = abs_c (Height l)\<rparr>"
| "LocalToGlobal r l BottomLeft =
     \<lparr>X = LeftSide r + LeftSide l,
      Y = TopSide r + TopSide l + (abs_c (Height r) - abs_c (Height l)),
      Width = abs_c (Width l), Height = abs_c (Height l)\<rparr>"
| "LocalToGlobal r l BottomCenter =
     \<lparr>X = LeftSide r + LeftSide l + div_c (abs_c (Width r) - abs_c (Width l)) 2,
      Y = TopSide r + TopSide l + (abs_c (Height r) - abs_c (Height l)),
      Width = abs_c (Width l), Height = abs_c (Height l)\<rparr>"
| "LocalToGlobal r l BottomRight =
     \<lparr>X = LeftSide r + LeftSide l + (abs_c (Width r) - abs_c (Width l)),
      Y = TopSide r + TopSide l + (abs_c (Height r) - abs_c (Height l)),
      Width = abs_c (Width l), Height = abs_c (Height l)\<rparr>"
| "LocalToGlobal r l TopLeft =
     \<lparr>X = LeftSide r + LeftSide l,
      Y = TopSide r + TopSide l,
      Width = abs_c (Width l), Height = abs_c (Height l)\<rparr>"

section \<open>Engine\_GameObject.h: the Game Scene\<close>

text \<open>
  A \<^verbatim>\<open>GameObject*\<close> that is not null is its address, a natural number; a pointer
  that may be null is an \<open>obj option\<close>. The layers of a scene are a vector of unordered
  sets of such pointers; \<^verbatim>\<open>Add\<close> never inserts a null pointer.
\<close>

type_synonym obj = nat

record GameScene =
  layers :: "obj set list"

text \<open>The member initialiser of \<^verbatim>\<open>__layers\<close>: a vector of one empty set.\<close>

definition GameScene_new :: GameScene where
  "GameScene_new = \<lparr>layers = [{}]\<rparr>"

text \<open>\<^verbatim>\<open>operator[]\<close> of a vector: outside the vector it is undefined behaviour.\<close>

definition vector_at :: "'a list \<Rightarrow> int \<Rightarrow> error + 'a" where
  "vector_at v i = (if 0 \<le> i \<and> i < int (length v) then Inr (v ! nat i) else Inl IndexOutOfRange)"

definition CountLayer :: "GameScene \<Rightarrow> nat" where
  "CountLayer s = length (layers s)"

text \<open>\<^verbatim>\<open>int AddLayer(int index = -1)\<close>: the new scene and the index of the new layer.\<close>

definition AddLayer :: "int \<Rightarrow> GameScene \<Rightarrow> int \<times> GameScene" where
  "AddLayer index s =
     (let n = int (length (layers s));
          target_index = (if index < 0 \<or> n \<le> index then n else index)
      in (target_index,
          s\<lparr>layers := take (nat target_index) (layers s) @ [{}] @ drop (nat target_index) (layers s)\<rparr>))"

text \<open>
  \<^verbatim>\<open>void RemoveLayer(int index = -1)\<close>. With no layer at all the target index is
  \<open>-1\<close> and the erase is outside the vector.
\<close>

definition RemoveLayer :: "int \<Rightarrow> GameScene \<Rightarrow> error + GameScene" where
  "RemoveLayer index s =
     (let n = int (length (layers s)) in
      if n = 1 then Inr (s\<lparr>layers := (layers s)[0 := {}]\<rparr>)
      else
        let target_index = (if index < 0 \<or> n \<le> index then n - 1 else index) in
        if 0 \<le> target_index \<and> target_index < n
        then Inr (s\<lparr>layers := take (nat target_index) (layers s) @ drop (Suc (nat target_index)) (layers s)\<rparr>)
        else Inl IndexOutOfRange)"

text \<open>\<^verbatim>\<open>int GetGameObjectLayer(GameObject* obj) const\<close>: the first layer that holds \<open>obj\<close>.\<close>

fun first_layer_with :: "obj \<Rightarrow> obj set list \<Rightarrow> int \<Rightarrow> int" where
  "first_layer_with a [] i = - 1"
| "first_layer_with a (l # ls) i = (if a \<in> l then i else first_layer_with a ls (i + 1))"

definition GetGameObjectLayer :: "obj option \<Rightarrow> GameScene \<Rightarrow> int" where
  "GetGameObjectLayer obj s =
     (case obj of None \<Rightarrow> - 1 | Some a \<Rightarrow> first_layer_with a (layers s) 0)"

text \<open>\<^verbatim>\<open>size_t Count() const\<close>: the objects of all layers together.\<close>

definition Count :: "GameScene \<Rightarrow> nat" where
  "Count s = sum_list (map card (layers s))"

text \<open>
  \<^verbatim>\<open>size_t Count(int layer_index) const\<close>, as it is written:
  \<^verbatim>\<open>return (layer_index < 0 || layer_index >= __layers.size()) ? __layers[layer_index].size() : 0;\<close>
\<close>

definition Count_layer :: "int \<Rightarrow> GameScene \<Rightarrow> error + nat" where
  "Count_layer layer_index s =
     (if layer_index < 0 \<or> int (length (layers s)) \<le> layer_index
      then (case vector_at (layers s) layer_index of Inl e \<Rightarrow> Inl e | Inr l \<Rightarrow> Inr (card l))
      else Inr 0)"

definition ClearLayer :: "int \<Rightarrow> GameScene \<Rightarrow> GameScene" where
  "ClearLayer layer_index s =
     (if layer_index < 0 \<or> int (length (layers s)) \<le> layer_index then s
      else s\<lparr>layers := (layers s)[nat layer_index := {}]\<rparr>)"

definition SwapLayer :: "int \<Rightarrow> int \<Rightarrow> GameScene \<Rightarrow> GameScene" where
  "SwapLayer layer_index1 layer_index2 s =
     (if layer_index1 = layer_index2 then s
      else if layer_index1 < 0 \<or> int (length (layers s)) \<le> layer_index1 then s
      else if layer_index2 < 0 \<or> int (length (layers s)) \<le> layer_index2 then s
      else s\<lparr>layers := (layers s)[nat layer_index1 := layers s ! nat layer_index2,
                                   nat layer_index2 := layers s ! nat layer_index1]\<rparr>)"

text \<open>
  \<^verbatim>\<open>void Add(GameObject* obj, int layer = -1)\<close>: erase \<open>obj\<close> from every layer, then insert
  it into \<^verbatim>\<open>__layers[curr_layer]\<close>.
\<close>

definition Add :: "obj option \<Rightarrow> int \<Rightarrow> GameScene \<Rightarrow> error + GameScene" where
  "Add obj layer s =
     (case obj of
        None \<Rightarrow> Inr s
      | Some a \<Rightarrow>
          let n = int (length (layers s));
              curr_layer = (if layer < 0 \<or> n \<le> layer then n - 1 else layer);
              erased = map (\<lambda>l. l - {a}) (layers s)
          in (case vector_at erased curr_layer of
                Inl e \<Rightarrow> Inl e
              | Inr l \<Rightarrow> Inr (s\<lparr>layers := erased[nat curr_layer := insert a l]\<rparr>)))"

definition Remove :: "obj option \<Rightarrow> GameScene \<Rightarrow> GameScene" where
  "Remove obj s =
     (case obj of None \<Rightarrow> s | Some a \<Rightarrow> s\<lparr>layers := map (\<lambda>l. l - {a}) (layers s)\<rparr>)"

definition Clear :: "GameScene \<Rightarrow> GameScene" where
  "Clear s = s\<lparr>layers := map (\<lambda>l. {}) (layers s)\<rparr>"

text \<open>The layer \<^verbatim>\<open>Add\<close> resolves its index to: the last one for a negative or too large index.\<close>

definition target_layer :: "int \<Rightarrow> GameScene \<Rightarrow> nat" where
  "target_layer layer s =
     (if layer < 0 \<or> int (length (layers s)) \<le> layer then length (layers s) - 1 else nat layer)"

text \<open>The indices of the layers that hold an object.\<close>

definition layers_of :: "obj \<Rightarrow> GameScene \<Rightarrow> nat list" where
  "layers_of a s = filter (\<lambda>i. a \<in> layers s ! i) [0 ..< length (layers s)]"

text \<open>No object in two layers of the scene at once.\<close>

definition in_one_layer_at_most :: "GameScene \<Rightarrow> bool" where
  "in_one_layer_at_most s = (\<forall>a. length (layers_of a s) \<le> 1)"

text \<open>Calls on a scene, and a sequence of them run from left to right, stopping at a failure.\<close>

datatype scene_call =
  Call_Add "obj option" int
  | Call_Remove "obj option"
  | Call_ClearLayer int
  | Call_Clear
  | Call_AddLayer int
  | Call_RemoveLayer int
  | Call_SwapLayer int int

fun run_scene_call :: "scene_call \<Rightarrow> GameScene \<Rightarrow> error + GameScene" where
  "run_scene_call (Call_Add obj layer) s = Add obj layer s"
| "run_scene_call (Call_Remove obj) s = Inr (Remove obj s)"
| "run_scene_call (Call_ClearLayer i) s = Inr (ClearLayer i s)"
| "run_scene_call Call_Clear s = Inr (Clear s)"
| "run_scene_call (Call_AddLayer i) s = Inr (snd (AddLayer i s))"
| "run_scene_call (Call_RemoveLayer i) s = RemoveLayer i s"
| "run_scene_call (Call_SwapLayer i j) s = Inr (SwapLayer i j s)"

fun run_scene_calls :: "scene_call list \<Rightarrow> GameScene \<Rightarrow> error + GameScene" where
  "run_scene_calls [] s = Inr s"
| "run_scene_calls (c # cs) s =
     (case run_scene_call c s of Inl e \<Rightarrow> Inl e | Inr s' \<Rightarrow> run_scene_calls cs s')"

subsection \<open>The static members of GameScene\<close>

text \<open>
  \<^verbatim>\<open>__is_initialize\<close>, \<^verbatim>\<open>__curr_scene\<close> and \<^verbatim>\<open>__created_scenes\<close>; a \<^verbatim>\<open>GameScene*\<close> is
  an address as well.
\<close>

record SceneStatics =
  is_initialize :: bool
  curr_scene :: "nat option"
  created_scenes :: "nat set"

definition SceneStatics_initial :: SceneStatics where
  "SceneStatics_initial = \<lparr>is_initialize = False, curr_scene = None, created_scenes = {}\<rparr>"

definition IsInitialized :: "SceneStatics \<Rightarrow> bool" where
  "IsInitialized st = (curr_scene st \<noteq> None \<and> created_scenes st \<noteq> {})"

definition not_initialized_message :: string where
  "not_initialized_message =
     ''The Game Scene must be initialized successfully before creating a Game Scene!''"

text \<open>
  \<^verbatim>\<open>GameScene()\<close> at address \<open>this\<close>: the exception thrown, if any, and the statics after
  the call. The two copying constructors run the same check and the same insertion.
\<close>

definition GameScene_ctor :: "nat \<Rightarrow> SceneStatics \<Rightarrow> error option \<times> SceneStatics" where
  "GameScene_ctor this st =
     (if \<not> is_initialize st \<and> \<not> IsInitialized st
      then (Some (runtime_error not_initialized_message), st)
      else (None, st\<lparr>created_scenes := insert this (created_scenes st)\<rparr>))"

definition GetCurrentScene :: "SceneStatics \<Rightarrow> nat option" where
  "GetCurrentScene st = (if \<not> IsInitialized st then None else curr_scene st)"

definition SetCurrentScene :: "nat option \<Rightarrow> SceneStatics \<Rightarrow> SceneStatics" where
  "SetCurrentScene scene st =
     (if IsInitialized st \<and> scene \<noteq> None then st\<lparr>curr_scene := scene\<rparr> else st)"

text \<open>
  \<^verbatim>\<open>static bool Initialize()\<close>, with \<open>a\<close> the address \<^verbatim>\<open>new\<close> returns. The destructors
  of the scenes deleted here leave the statics alone, since \<^verbatim>\<open>__is_initialize\<close> is set.
\<close>

definition Initialize :: "nat \<Rightarrow> SceneStatics \<Rightarrow> bool \<times> SceneStatics" where
  "Initialize a st =
     (let st1 = st\<lparr>is_initialize := True\<rparr>;
          st2 = st1\<lparr>created_scenes := {}\<rparr>
      in (case GameScene_ctor a st2 of
            (Some e, st3) \<Rightarrow> (False, st3)
          | (None, st3) \<Rightarrow>
              (True, st3\<lparr>curr_scene := Some a,
                         created_scenes := insert a (created_scenes st3),
                         is_initialize := False\<rparr>)))"

definition Deinitialize :: "SceneStatics \<Rightarrow> SceneStatics" where
  "Deinitialize st = st\<lparr>is_initialize := False, curr_scene := None, created_scenes := {}\<rparr>"

section \<open>Engine\_GameObject.h: the Game Object tree\<close>

text \<open>
  The fields of a Game Object that the tree operations and the event propagation read or
  write. \<^verbatim>\<open>__childs\<close> is an unordered set of addresses; \<^verbatim>\<open>SetParent\<close> is the only
  function that inserts into it, and it inserts \<^verbatim>\<open>this\<close>, so no set holds a null pointer.
  \<^verbatim>\<open>__scripts\<close> maps the hash code of a script type to a \<^verbatim>\<open>GameScript*\<close>, which may be
  null: its entries are listed in the order in which the map yields them, which stays the
  same while the map is not modified.
\<close>

record GameObject =
  parent :: "obj option"
  childs :: "obj set"
  scripts :: "(nat \<times> nat option) list"
  Enabled :: bool
  HandleInput :: bool
  Position :: Point
  Size :: Size
  Alignment :: RectangleAlignment

text \<open>The member initialisers of the class.\<close>

definition GameObject_new :: GameObject where
  "GameObject_new =
     \<lparr>parent = None, childs = {}, scripts = [], Enabled = True, HandleInput = True,
      Position = Point_Zero, Size = Size_Zero, Alignment = TopLeft\<rparr>"

text \<open>The store: the Game Object at each address.\<close>

type_synonym heap = "obj \<Rightarrow> GameObject"

definition heap_new :: heap where
  "heap_new = (\<lambda>a. GameObject_new)"

definition GetArea :: "GameObject \<Rightarrow> Rectangle" where
  "GetArea g = Rectangle_of (Position g) (Size g)"

text \<open>
  \<^verbatim>\<open>void SetParent(GameObject* parent)\<close> on the object at \<open>this\<close>, one function for each of
  its three statements:
  \<^verbatim>\<open>if (__parent) __parent->__childs.erase(this);\<close>
  \<^verbatim>\<open>__parent = parent;\<close>
  \<^verbatim>\<open>if (parent) parent->__childs.insert(this);\<close>
\<close>

definition SetParent_erase :: "obj \<Rightarrow> heap \<Rightarrow> heap" where
  "SetParent_erase this h =
     (case parent (h this) of
        None \<Rightarrow> h
      | Some old \<Rightarrow> h(old := (h old)\<lparr>childs := childs (h old) - {this}\<rparr>))"

definition SetParent_assign :: "obj \<Rightarrow> obj option \<Rightarrow> heap \<Rightarrow> heap" where
  "SetParent_assign this p h = h(this := (h this)\<lparr>parent := p\<rparr>)"

definition SetParent_insert :: "obj \<Rightarrow> obj option \<Rightarrow> heap \<Rightarrow> heap" where
  "SetParent_insert this p h =
     (case p of
        None \<Rightarrow> h
      | Some new \<Rightarrow> h(new := (h new)\<lparr>childs := insert this (childs (h new))\<rparr>))"

definition SetParent :: "obj \<Rightarrow> obj option \<Rightarrow> heap \<Rightarrow> heap" where
  "SetParent this p h = SetParent_insert this p (SetParent_assign this p (SetParent_erase this h))"

definition DetachParent :: "obj \<Rightarrow> heap \<Rightarrow> heap" where
  "DetachParent this h = SetParent this None h"

text \<open>\<^verbatim>\<open>void AddChild(GameObject* child) { if (child) child->SetParent(this); }\<close>\<close>

definition AddChild :: "obj \<Rightarrow> obj option \<Rightarrow> heap \<Rightarrow> heap" where
  "AddChild this child h = (case child of None \<Rightarrow> h | Some c \<Rightarrow> SetParent c (Some this) h)"

text \<open>
  \<^verbatim>\<open>void DetachChild(GameObject* child) { child->SetParent(nullptr); }\<close>: no null check,
  and no check that \<open>child\<close> is a child of \<open>this\<close>.
\<close>

definition DetachChild :: "obj \<Rightarrow> obj option \<Rightarrow> heap \<Rightarrow> error + heap" where
  "DetachChild this child h =
     (case child of None \<Rightarrow> Inl NullDereference | Some c \<Rightarrow> Inr (SetParent c None h))"

datatype tree_call =
  Call_SetParent obj "obj option"
  | Call_AddChild obj "obj option"
  | Call_DetachParent obj
  | Call_DetachChild obj "obj option"

fun run_tree_call :: "tree_call \<Rightarrow> heap \<Rightarrow> error + heap" where
  "run_tree_call (Call_SetParent this p) h = Inr (SetParent this p h)"
| "run_tree_call (Call_AddChild this child) h = Inr (AddChild this child h)"
| "run_tree_call (Call_DetachParent this) h = Inr (DetachParent this h)"
| "run_tree_call (Call_DetachChild this child) h = DetachChild this child h"

fun run_tree_calls :: "tree_call list \<Rightarrow> heap \<Rightarrow> error + heap" where
  "run_tree_calls [] h = Inr h"
| "run_tree_calls (c # cs) h =
     (case run_tree_call c h of Inl e \<Rightarrow> Inl e | Inr h' \<Rightarrow> run_tree_calls cs h')"

text \<open>The parent pointers and the child sets say the same.\<close>

definition parent_matches_childs :: "heap \<Rightarrow> bool" where
  "parent_matches_childs h = (\<forall>n p. (parent (h n) = Some p) = (n \<in> childs (h p)))"

subsection \<open>Raising the Update event\<close>

text \<open>
  The hooks are virtual functions and subscriber lists; what a traversal does is recorded
  as the sequence of the calls it makes, each with its receiver and arguments. The hooks
  themselves are taken as the class has them, with empty bodies and no subscriber that
  changes the tree or the arguments.
\<close>

datatype update_call =
  Script_OnEarlyUpdate nat obj
  | GameObject_OnUpdate obj
  | Script_OnUpdate nat obj
  | UpdateEvent_Call obj
  | Script_OnLateUpdate nat obj

text \<open>\<^verbatim>\<open>for (auto& pair : __scripts) if (pair.second) pair.second->f(this);\<close>\<close>

definition script_calls ::
  "(nat \<Rightarrow> obj \<Rightarrow> update_call) \<Rightarrow> obj \<Rightarrow> (nat \<times> nat option) list \<Rightarrow> update_call list" where
  "script_calls f this ss =
     concat (map (\<lambda>pair. case snd pair of None \<Rightarrow> [] | Some script \<Rightarrow> [f script this]) ss)"

text \<open>The calls of a sequence of traversals, one after the other, if all of them return.\<close>

fun in_sequence :: "'a list option list \<Rightarrow> 'a list option" where
  "in_sequence [] = Some []"
| "in_sequence (r # rs) =
     (case r of
        None \<Rightarrow> None
      | Some calls \<Rightarrow> (case in_sequence rs of None \<Rightarrow> None | Some rest \<Rightarrow> Some (calls @ rest)))"

text \<open>
  \<^verbatim>\<open>void RaiseUpdateEvent(bool recursive = true)\<close>. An unordered set yields its elements
  in an order the language leaves open: \<open>visit n\<close> is the sequence in which the loop over
  the \<^verbatim>\<open>__childs\<close> of \<open>n\<close> meets them. The first argument bounds the depth of the recursion
  (the traversal of a tree with a cycle does not return); \<open>None\<close> is a traversal cut off
  by the bound.
\<close>

fun RaiseUpdateEvent :: "nat \<Rightarrow> (obj \<Rightarrow> obj list) \<Rightarrow> heap \<Rightarrow> obj \<Rightarrow> bool \<Rightarrow> update_call list option" where
  "RaiseUpdateEvent 0 visit h this recursive = None"
| "RaiseUpdateEvent (Suc depth) visit h this recursive =
     (let own = script_calls Script_OnEarlyUpdate this (scripts (h this))
                @ [GameObject_OnUpdate this]
                @ script_calls Script_OnUpdate this (scripts (h this))
                @ [UpdateEvent_Call this]
      in if \<not> recursive then Some own
         else
           (case in_sequence (map (\<lambda>child. RaiseUpdateEvent depth visit h child True) (visit this)) of
              None \<Rightarrow> None
            | Some below \<Rightarrow>
                Some (own @ below @ script_calls Script_OnLateUpdate this (scripts (h this)))))"

text \<open>A visiting order that fits the child sets of the store.\<close>

definition visits_childs :: "heap \<Rightarrow> (obj \<Rightarrow> obj list) \<Rightarrow> bool" where
  "visits_childs h visit = (\<forall>n. set (visit n) = childs (h n) \<and> distinct (visit n))"

text \<open>The objects whose own update hook a traversal called, in the order of the calls.\<close>

fun OnUpdate_order :: "update_call list \<Rightarrow> obj list" where
  "OnUpdate_order [] = []"
| "OnUpdate_order (GameObject_OnUpdate n # calls) = n # OnUpdate_order calls"
| "OnUpdate_order (c # calls) = OnUpdate_order calls"

text \<open>
  The tree of the depth-first example: root 1 with the children 2 and 3, added in this
  order, and 4 a child of 2.
\<close>

definition update_tree :: heap where
  "update_tree = AddChild 2 (Some 4) (AddChild 1 (Some 3) (AddChild 1 (Some 2) heap_new))"

text \<open>A visiting order for it that meets the child added last first.\<close>

definition last_added_first :: "obj \<Rightarrow> obj list" where
  "last_added_first n = (if n = 1 then [3, 2] else if n = 2 then [4] else [])"

text \<open>The visiting order that meets the children in the order in which they were added.\<close>

definition first_added_first :: "obj \<Rightarrow> obj list" where
  "first_added_first n = (if n = 1 then [2, 3] else if n = 2 then [4] else [])"

text \<open>An object with one script attached, the script at address 9, and no children.\<close>

definition scripted_heap :: heap where
  "scripted_heap = heap_new(1 := GameObject_new\<lparr>scripts := [(42, Some 9)]\<rparr>)"

subsection \<open>Raising the Mouse Down event\<close>

record MouseButtonEventArgs =
  LocalPosition :: Point
  Button :: nat
  Clicks :: int32
  IsDownEvent :: bool
  IsUpEvent :: bool
  IsPressed :: bool
  IsReleased :: bool

definition MouseButtonEventArgs_new :: MouseButtonEventArgs where
  "MouseButtonEventArgs_new =
     \<lparr>LocalPosition = Point_Zero, Button = 0, Clicks = 0, IsDownEvent = False,
      IsUpEvent = False, IsPressed = False, IsReleased = False\<rparr>"

datatype mouse_call =
  OnGlobalMouseDown obj MouseButtonEventArgs
  | GlobalMouseDownEvent_Call obj MouseButtonEventArgs
  | OnMouseDown obj MouseButtonEventArgs
  | MouseDownEvent_Call obj MouseButtonEventArgs

text \<open>
  \<^verbatim>\<open>void RaiseMouseDownEvent(MouseButtonEventArgs* args, bool recursive = true)\<close>, with
  \<open>None\<close> for a null \<open>args\<close>. Each call is recorded with the arguments it is given.
\<close>

fun RaiseMouseDownEvent :: "nat \<Rightarrow> (obj \<Rightarrow> obj list) \<Rightarrow> heap \<Rightarrow> obj \<Rightarrow> MouseButtonEventArgs option \<Rightarrow> bool \<Rightarrow> mouse_call list option" where
  "RaiseMouseDownEvent 0 visit h this args recursive = None"
| "RaiseMouseDownEvent (Suc depth) visit h this args recursive =
     (let tmp = (case args of None \<Rightarrow> MouseButtonEventArgs_new | Some a \<Rightarrow> a);
          global = [OnGlobalMouseDown this tmp, GlobalMouseDownEvent_Call this tmp];
          inside = (if IsContain (Rectangle_of Point_Zero (Size (h this))) (LocalPosition tmp)
                    then [OnMouseDown this tmp, MouseDownEvent_Call this tmp] else [])
      in if \<not> recursive then Some (global @ inside)
         else
           (case in_sequence
                   (map (\<lambda>child.
                           if \<not> Enabled (h child) \<or> \<not> HandleInput (h child) then Some []
                           else
                             let child_area = LocalToGlobal (GetArea (h this)) (GetArea (h child))
                                                (Alignment (h child));
                                 child_args = tmp\<lparr>LocalPosition :=
                                                Point_minus (LocalPosition tmp) (TopLeft_corner child_area)\<rparr>
                             in RaiseMouseDownEvent depth visit h child (Some child_args) recursive)
                      (visit this)) of
              None \<Rightarrow> None
            | Some below \<Rightarrow> Some (global @ inside @ below)))"

text \<open>
  The tree of the re-basing example with its root placed at \<open>p\<close>: the root at address 1,
  sized 100 x 100, and its child at address 2, at (10, 10) and sized 20 x 20; every other
  field as constructed (enabled, handling input, aligned \<open>TopLeft\<close>).
\<close>

definition mouse_tree_at :: "Point \<Rightarrow> heap" where
  "mouse_tree_at p =
     AddChild 1 (Some 2)
       (heap_new
          (1 := GameObject_new\<lparr>Position := p,
                                Size := \<lparr>Size.Width = 100, Size.Height = 100\<rparr>\<rparr>,
           2 := GameObject_new\<lparr>Position := \<lparr>Point.X = 10, Point.Y = 10\<rparr>,
                                Size := \<lparr>Size.Width = 20, Size.Height = 20\<rparr>\<rparr>))"

text \<open>
  Engine.h, the mouse-down case of \<^verbatim>\<open>Application::HandleWindowEvent\<close>: the arguments
  with which it raises the event on an enabled, input-handling object \<open>obj\<close> of the current
  scene, from the arguments of the window's event:
  \<^verbatim>\<open>MouseButtonEventArgs child_args(button_args);\<close>
  \<^verbatim>\<open>Rectangle child_area = Rectangle(Point::Zero, Window::GetSize()).LocalToGlobal(obj->GetArea(), obj->Alignment);\<close>
  \<^verbatim>\<open>child_args.LocalPosition -= child_area.TopLeft();\<close>
\<close>

definition window_mouse_down_args :: "Size \<Rightarrow> GameObject \<Rightarrow> MouseButtonEventArgs \<Rightarrow> MouseButtonEventArgs" where
  "window_mouse_down_args window_size obj button_args =
     (let child_area = LocalToGlobal (Rectangle_of Point_Zero window_size) (GetArea obj) (Alignment obj)
      in button_args\<lparr>LocalPosition :=
           Point_minus (LocalPosition button_args) (TopLeft_corner child_area)\<rparr>)"

text \<open>Default arguments with the local position (x, y), and the visiting order of the tree.\<close>

definition mouse_args_at :: "int32 \<Rightarrow> int32 \<Rightarrow> MouseButtonEventArgs" where
  "mouse_args_at x y = MouseButtonEventArgs_new\<lparr>LocalPosition := \<lparr>Point.X = x, Point.Y = y\<rparr>\<rparr>"

definition root_then_child :: "obj \<Rightarrow> obj list" where
  "root_then_child n = (if n = 1 then [2] else [])"

section \<open>Engine\_Math.h and Engine\_Animation.h: the Animation Script\<close>

text \<open>
  The times of an Animation Script are C++ \<^verbatim>\<open>double\<close> values, and the frame time it adds
  is a \<^verbatim>\<open>long double\<close>. They are modelled by real numbers: the comparisons and the
  branches are those of the source, the rounding of the floating-point operations is not
  modelled.
\<close>

text \<open>\<^verbatim>\<open>ENGINE_FAST_CLAMP(0, 1, value)\<close>\<close>

definition Clamp01 :: "real \<Rightarrow> real" where
  "Clamp01 v = (if v < 0 then 0 else if 1 < v then 1 else v)"

text \<open>\<^verbatim>\<open>Interpolation::InverseLinear(start, end, value)\<close>\<close>

definition InverseLinear :: "real \<Rightarrow> real \<Rightarrow> real \<Rightarrow> real" where
  "InverseLinear start finish v = Clamp01 ((v - start) / (finish - start))"

record AnimationScript =
  is_started :: bool
  is_played :: bool
  delay :: real
  duration :: real
  time :: real
  ResetOnFinish :: bool
  Repeated :: bool

definition AnimationScript_new :: AnimationScript where
  "AnimationScript_new =
     \<lparr>is_started = False, is_played = False, delay = 0, duration = 1 / 100, time = 0,
      ResetOnFinish = True, Repeated = False\<rparr>"

definition SetDuration :: "real \<Rightarrow> AnimationScript \<Rightarrow> AnimationScript" where
  "SetDuration D s = s\<lparr>duration := (if D < 1 / 100 then 1 / 100 else D)\<rparr>"

definition SetDelay :: "real \<Rightarrow> AnimationScript \<Rightarrow> AnimationScript" where
  "SetDelay D s = s\<lparr>delay := (if D < 0 then 0 else D)\<rparr>"

definition PlayAnimation :: "AnimationScript \<Rightarrow> AnimationScript" where
  "PlayAnimation s = s\<lparr>is_started := True\<rparr>"

definition PauseAnimation :: "AnimationScript \<Rightarrow> AnimationScript" where
  "PauseAnimation s = s\<lparr>is_started := False\<rparr>"

definition ResetAnimation :: "AnimationScript \<Rightarrow> AnimationScript" where
  "ResetAnimation s = s\<lparr>time := 0, is_played := False\<rparr>"

definition StopAnimation :: "AnimationScript \<Rightarrow> AnimationScript" where
  "StopAnimation s = (ResetAnimation s)\<lparr>is_started := False\<rparr>"

definition IsPlaying :: "AnimationScript \<Rightarrow> bool" where
  "IsPlaying s = (is_started s \<and> delay s \<le> time s)"

definition IsDelay :: "AnimationScript \<Rightarrow> bool" where
  "IsDelay s = (is_started s \<and> time s < delay s)"

definition IsStarted :: "AnimationScript \<Rightarrow> bool" where
  "IsStarted s = is_started s"

text \<open>
  The calls a tick makes: each virtual hook and the \<^verbatim>\<open>Call\<close> of the event that follows it;
  \<^verbatim>\<open>OnUpdateAnimation\<close> with the animation time it is given.
\<close>

datatype animation_call =
  OnDelayAnimation
  | DelayAnimationEvent_Call
  | OnStartAnimation
  | StartAnimationEvent_Call
  | OnUpdateAnimation real
  | UpdateAnimationEvent_Call
  | OnStopAnimation
  | StopAnimationEvent_Call

text \<open>
  \<^verbatim>\<open>void OnUpdate(Engine::GameObject* Target) override\<close>, with \<open>dt\<close> the value of
  \<^verbatim>\<open>Application::GetDeltaTime()\<close>: the calls made and the script after the tick.
\<close>

definition AnimationScript_OnUpdate :: "real \<Rightarrow> AnimationScript \<Rightarrow> animation_call list \<times> AnimationScript" where
  "AnimationScript_OnUpdate dt s =
     (if \<not> is_started s then ([], s)
      else
        let s1 = s\<lparr>time := time s + dt\<rparr> in
        if time s1 < delay s1 then ([OnDelayAnimation, DelayAnimationEvent_Call], s1)
        else
          let starting = (\<not> is_played s1 \<and> delay s1 \<le> time s1);
              s2 = (if starting then s1\<lparr>is_played := True\<rparr> else s1);
              start_calls = (if starting then [OnStartAnimation, StartAnimationEvent_Call] else []);
              end_time = delay s2 + duration s2;
              update_calls = [OnUpdateAnimation (InverseLinear (delay s2) end_time (time s2)),
                              UpdateAnimationEvent_Call]
          in if end_time < time s2
             then
               let s3 = s2\<lparr>is_started := False\<rparr>;
                   s4 = (if ResetOnFinish s3 \<or> Repeated s3 then ResetAnimation s3 else s3);
                   s5 = (if Repeated s4 then PlayAnimation s4 else s4)
               in (start_calls @ update_calls @ [OnStopAnimation, StopAnimationEvent_Call], s5)
             else (start_calls @ update_calls, s2))"

text \<open>One tick for each frame time of a list, the calls one after the other.\<close>

fun run_ticks :: "real list \<Rightarrow> AnimationScript \<Rightarrow> animation_call list \<times> AnimationScript" where
  "run_ticks [] s = ([], s)"
| "run_ticks (dt # dts) s =
     (case AnimationScript_OnUpdate dt s of
        (calls, s') \<Rightarrow> (case run_ticks dts s' of (rest, s'') \<Rightarrow> (calls @ rest, s'')))"

text \<open>
  The animation times given to \<^verbatim>\<open>OnUpdateAnimation\<close>, and the calls of the stopping
  hook and event among the calls.
\<close>

fun update_times :: "animation_call list \<Rightarrow> real list" where
  "update_times [] = []"
| "update_times (OnUpdateAnimation t # calls) = t # update_times calls"
| "update_times (c # calls) = update_times calls"

definition stop_calls :: "animation_call list \<Rightarrow> animation_call list" where
  "stop_calls calls = filter (\<lambda>c. c = OnStopAnimation \<or> c = StopAnimationEvent_Call) calls"

text \<open>The script of the timing example: delay 1, duration 2, then \<^verbatim>\<open>PlayAnimation()\<close>.\<close>

definition timing_script :: AnimationScript where
  "timing_script = PlayAnimation (SetDuration 2 (SetDelay 1 AnimationScript_new))"

text \<open>
  The two phases of the timing example: running with elapsed time \<open>T\<close>, and stopped.
\<close>

definition running :: "AnimationScript \<Rightarrow> real \<Rightarrow> bool" where
  "running s T = (is_started s \<and> delay s = 1 \<and> duration s = 2 \<and> \<not> Repeated s \<and> time s = T)"

definition stopped :: "AnimationScript \<Rightarrow> bool" where
  "stopped s = (\<not> is_started s \<and> \<not> Repeated s)"

section \<open>Alignment transform\<close>

text \<open>
  C6. For every parent rectangle \<open>r\<close> and child rectangle \<open>l\<close>, whatever the signs of their
  widths and heights: with \<open>TopLeft\<close> the result has X = left side of the parent + left
  side of the child, Y = top side of the parent + top side of the child, and the
  absolute values of the child's width and height; with \<open>MiddleCenter\<close> each axis
  additionally gets (abs of the parent's dimension - abs of the child's dimension) / 2,
  here written before the child's offset is added.
\<close>

theorem LocalToGlobal_TopLeft_MiddleCenter:
  "LocalToGlobal r l TopLeft =
     \<lparr>X = LeftSide r + LeftSide l, Y = TopSide r + TopSide l,
      Width = abs_c (Width l), Height = abs_c (Height l)\<rparr>
   \<and> LocalToGlobal r l MiddleCenter =
     \<lparr>X = LeftSide r + div_c (abs_c (Width r) - abs_c (Width l)) 2 + LeftSide l,
      Y = TopSide r + div_c (abs_c (Height r) - abs_c (Height l)) 2 + TopSide l,
      Width = abs_c (Width l), Height = abs_c (Height l)\<rparr>"
  by simp

theorem LocalToGlobal_TopLeft_MiddleCenter_witness:
  "LocalToGlobal \<lparr>X = 100, Y = 50, Width = - 40, Height = 30\<rparr>
       \<lparr>X = 5, Y = 7, Width = 11, Height = - 4\<rparr> TopLeft
     = \<lparr>X = 66, Y = 54, Width = 11, Height = 4\<rparr>
   \<and> LocalToGlobal \<lparr>X = 100, Y = 50, Width = - 40, Height = 30\<rparr>
       \<lparr>X = 5, Y = 7, Width = 11, Height = - 4\<rparr> MiddleCenter
     = \<lparr>X = 80, Y = 67, Width = 11, Height = 4\<rparr>"
  using LocalToGlobal_TopLeft_MiddleCenter
    [of "\<lparr>X = 100, Y = 50, Width = - 40, Height = 30\<rparr>"
        "\<lparr>X = 5, Y = 7, Width = 11, Height = - 4\<rparr>"]
  by (simp add: LeftSide_def TopSide_def abs_c_def div_c_def word_sless_alt
      signed_divide_int_def)

section \<open>Scene layers\<close>

subsection \<open>Counting the layers that hold an object\<close>

lemma layers_of_length:
  "length (layers_of a s) = length (filter (\<lambda>l. a \<in> l) (layers s))"
proof -
  have "map ((!) (layers s)) (filter (\<lambda>i. a \<in> layers s ! i) [0 ..< length (layers s)])
        = filter (\<lambda>l. a \<in> l) (map ((!) (layers s)) [0 ..< length (layers s)])"
    by (simp add: filter_map comp_def)
  then have "length (filter (\<lambda>i. a \<in> layers s ! i) [0 ..< length (layers s)])
        = length (filter (\<lambda>l. a \<in> l) (layers s))"
    by (metis length_map map_nth)
  then show ?thesis by (simp add: layers_of_def)
qed

lemma filter_update_same:
  "i < length xs \<Longrightarrow> P y = P (xs ! i) \<Longrightarrow> length (filter P (xs[i := y])) = length (filter P xs)"
proof (induction xs arbitrary: i)
  case Nil
  then show ?case by simp
next
  case (Cons x xs)
  then show ?case by (cases i) auto
qed

lemma filter_update_le:
  "\<not> P y \<Longrightarrow> length (filter P (xs[i := y])) \<le> length (filter P xs)"
proof (induction xs arbitrary: i)
  case Nil
  then show ?case by simp
next
  case (Cons x xs)
  show ?case
  proof (cases i)
    case 0
    then show ?thesis using Cons.prems by simp
  next
    case (Suc k)
    then show ?thesis using Cons.IH [OF Cons.prems, of k] by simp
  qed
qed

lemma filter_take_drop_le:
  "length (filter P (take n xs @ drop (Suc n) xs)) \<le> length (filter P xs)"
proof -
  have "length (filter P (take n xs)) + length (filter P (drop n xs)) = length (filter P xs)"
    by (metis append_take_drop_id filter_append length_append)
  moreover have "length (filter P (drop (Suc n) xs)) \<le> length (filter P (drop n xs))"
  proof (cases "n < length xs")
    case True
    then have "drop n xs = xs ! n # drop (Suc n) xs" by (simp add: Cons_nth_drop_Suc)
    then show ?thesis by simp
  next
    case False
    then show ?thesis by simp
  qed
  ultimately show ?thesis by simp
qed

lemma filter_insert_empty:
  "length (filter (\<lambda>l. a \<in> l) (take n xs @ [{}] @ drop n xs)) = length (filter (\<lambda>l. a \<in> l) xs)"
proof -
  have "length (filter (\<lambda>l. a \<in> l) (take n xs)) + length (filter (\<lambda>l. a \<in> l) (drop n xs))
        = length (filter (\<lambda>l. a \<in> l) xs)"
    by (metis append_take_drop_id filter_append length_append)
  then show ?thesis by simp
qed

lemma filter_swap:
  "i < length xs \<Longrightarrow> j < length xs \<Longrightarrow>
   length (filter P (xs[i := xs ! j, j := xs ! i])) = length (filter P xs)"
proof -
  assume a: "i < length xs" "j < length xs"
  have "mset (xs[i := xs ! j, j := xs ! i]) = mset xs"
    using a by (simp add: mset_swap)
  then have "size (filter_mset P (mset (xs[i := xs ! j, j := xs ! i]))) = size (filter_mset P (mset xs))"
    by simp
  then show ?thesis
    by (simp only: mset_filter [symmetric] size_mset)
qed

lemma filter_eq_upt: "t < n \<Longrightarrow> filter (\<lambda>i. i = t) [0 ..< n] = [t]"
proof (induction n)
  case 0
  then show ?case by simp
next
  case (Suc n)
  show ?case
  proof (cases "t = n")
    case True
    then have "filter (\<lambda>i. i = t) [0 ..< n] = []" by (auto simp: filter_empty_conv)
    with True show ?thesis by simp
  next
    case False
    with Suc show ?thesis by simp
  qed
qed

lemma Add_total:
  "layers s \<noteq> [] \<Longrightarrow> \<exists>s'. Add obj layer s = Inr s' \<and> length (layers s') = length (layers s)"
  by (cases obj) (auto simp: Add_def vector_at_def Let_def)

lemma Add_layers_of:
  assumes "layers s \<noteq> []" and "Add (Some a) layer s = Inr s'"
  shows "layers_of a s' = [target_layer layer s]"
proof -
  let ?n = "length (layers s)"
  let ?t = "target_layer layer s"
  let ?erased = "map (\<lambda>l. l - {a}) (layers s)"
  have t: "?t < ?n" using assms(1) by (auto simp: target_layer_def)
  have s': "layers s' = ?erased[?t := insert a (?erased ! ?t)]"
    using assms by (auto simp: Add_def vector_at_def Let_def target_layer_def nat_diff_distrib split: if_splits)
  have "\<And>i. i < ?n \<Longrightarrow> (a \<in> layers s' ! i) = (i = ?t)"
    using t by (auto simp: s' nth_list_update)
  then have "filter (\<lambda>i. a \<in> layers s' ! i) [0 ..< ?n] = filter (\<lambda>i. i = ?t) [0 ..< ?n]"
    by (intro filter_cong) auto
  moreover have "filter (\<lambda>i. i = ?t) [0 ..< ?n] = [?t]"
    using t by (simp add: filter_eq_upt)
  ultimately show ?thesis by (simp add: layers_of_def s')
qed

lemma Add_keeps_one_layer:
  assumes "layers s \<noteq> []" and "in_one_layer_at_most s" and "Add obj layer s = Inr s'"
  shows "in_one_layer_at_most s'"
proof (cases obj)
  case None
  with assms show ?thesis by (simp add: Add_def)
next
  case (Some a)
  let ?n = "length (layers s)"
  let ?t = "target_layer layer s"
  let ?erased = "map (\<lambda>l. l - {a}) (layers s)"
  have t: "?t < ?n" using assms(1) by (auto simp: target_layer_def)
  have s': "layers s' = ?erased[?t := insert a (?erased ! ?t)]"
    using assms Some by (auto simp: Add_def vector_at_def Let_def target_layer_def nat_diff_distrib split: if_splits)
  have "length (layers_of b s') \<le> 1" for b
  proof (cases "b = a")
    case True
    then show ?thesis using Add_layers_of [OF assms(1)] assms(3) Some by simp
  next
    case False
    have "length (filter (\<lambda>l. b \<in> l) (layers s')) = length (filter (\<lambda>l. b \<in> l) ?erased)"
      unfolding s' using t False by (intro filter_update_same) auto
    also have "\<dots> = length (filter (\<lambda>l. b \<in> l) (layers s))"
      using False by (simp add: filter_map comp_def)
    finally show ?thesis
      using assms(2) by (simp add: in_one_layer_at_most_def layers_of_length)
  qed
  then show ?thesis by (simp add: in_one_layer_at_most_def)
qed

lemma Remove_keeps_one_layer:
  assumes "in_one_layer_at_most s"
  shows "in_one_layer_at_most (Remove obj s)"
proof (cases obj)
  case None
  with assms show ?thesis by (simp add: Remove_def)
next
  case (Some a)
  have "length (filter (\<lambda>l. b \<in> l) (map (\<lambda>l. l - {a}) (layers s)))
        \<le> length (filter (\<lambda>l. b \<in> l) (layers s))" for b
  proof (induction "layers s" arbitrary: s)
    case Nil
    then show ?case by simp
  next
    case (Cons l ls)
    from Cons(1) [of "\<lparr>layers = ls\<rparr>"] Cons(2) [symmetric] show ?case by auto
  qed
  then show ?thesis
    using assms Some
    by (auto simp: in_one_layer_at_most_def layers_of_length Remove_def intro: order_trans)
qed

lemma ClearLayer_keeps_one_layer:
  assumes "in_one_layer_at_most s"
  shows "in_one_layer_at_most (ClearLayer i s)"
proof -
  have "length (filter (\<lambda>l. b \<in> l) ((layers s)[k := {}])) \<le> length (filter (\<lambda>l. b \<in> l) (layers s))" for b k
    by (rule filter_update_le) simp
  then show ?thesis
    using assms
    by (auto simp: in_one_layer_at_most_def layers_of_length ClearLayer_def intro: order_trans)
qed

lemma Clear_keeps_one_layer: "in_one_layer_at_most (Clear s)"
proof -
  have "filter (\<lambda>l. b \<in> l) (map (\<lambda>l. {}) (layers s)) = []" for b :: obj
    by (simp add: filter_empty_conv)
  then show ?thesis
    by (simp add: in_one_layer_at_most_def layers_of_length Clear_def)
qed

lemma AddLayer_keeps_one_layer:
  assumes "in_one_layer_at_most s"
  shows "in_one_layer_at_most (snd (AddLayer i s))"
  using assms
  by (simp add: in_one_layer_at_most_def layers_of_length AddLayer_def Let_def
      filter_insert_empty [simplified])

lemma RemoveLayer_keeps_one_layer:
  assumes "in_one_layer_at_most s" and "RemoveLayer i s = Inr s'"
  shows "in_one_layer_at_most s'"
proof -
  have 1: "length (filter (\<lambda>l. b \<in> l) ((layers s)[0 := {}])) \<le> length (filter (\<lambda>l. b \<in> l) (layers s))" for b
    by (rule filter_update_le) simp
  have 2: "length (filter (\<lambda>l. b \<in> l) (take k (layers s) @ drop (Suc k) (layers s)))
        \<le> length (filter (\<lambda>l. b \<in> l) (layers s))" for b k
    by (rule filter_take_drop_le)
  have 3: "length (filter (\<lambda>l. b \<in> l) (take k (layers s)))
        \<le> length (filter (\<lambda>l. b \<in> l) (layers s))" for b k
    using 2 [of b k] by simp
  have "length (filter (\<lambda>l. b \<in> l) (layers s')) \<le> length (filter (\<lambda>l. b \<in> l) (layers s))" for b
    using assms(2) 1 [of b] 2 [of b] 3 [of b]
    by (auto simp: RemoveLayer_def Let_def split: if_splits)
  then show ?thesis
    using assms(1)
    by (auto simp: in_one_layer_at_most_def layers_of_length intro: order_trans)
qed

lemma SwapLayer_keeps_one_layer:
  assumes "in_one_layer_at_most s"
  shows "in_one_layer_at_most (SwapLayer i j s)"
proof -
  have "length (filter (\<lambda>l. b \<in> l) (layers (SwapLayer i j s))) = length (filter (\<lambda>l. b \<in> l) (layers s))" for b
    by (auto simp: SwapLayer_def filter_swap)
  then show ?thesis
    using assms by (simp add: in_one_layer_at_most_def layers_of_length)
qed

lemma run_scene_call_nonempty:
  assumes "layers s \<noteq> []"
  shows "\<exists>s'. run_scene_call c s = Inr s' \<and> layers s' \<noteq> []"
proof (cases c)
  case (Call_Add obj layer)
  then show ?thesis using Add_total [OF assms, of obj layer] assms by auto
next
  case (Call_RemoveLayer i)
  have "length (layers s) \<noteq> 0" using assms by simp
  then have "2 \<le> length (layers s)" if "length (layers s) \<noteq> 1"
    using that by linarith
  then show ?thesis
    using assms Call_RemoveLayer by (auto simp: RemoveLayer_def Let_def)
qed (use assms in \<open>auto simp: Remove_def ClearLayer_def Clear_def AddLayer_def Let_def SwapLayer_def split: option.splits\<close>)

lemma run_scene_call_one_layer:
  assumes "layers s \<noteq> []" and "in_one_layer_at_most s" and "run_scene_call c s = Inr s'"
  shows "in_one_layer_at_most s'"
proof (cases c)
  case (Call_Add obj layer)
  then show ?thesis using Add_keeps_one_layer [OF assms(1,2), of obj layer s'] assms(3) by simp
next
  case (Call_Remove obj)
  then show ?thesis using Remove_keeps_one_layer [OF assms(2), of obj] assms(3) by auto
next
  case (Call_ClearLayer i)
  then show ?thesis using ClearLayer_keeps_one_layer [OF assms(2), of i] assms(3) by auto
next
  case Call_Clear
  then show ?thesis using Clear_keeps_one_layer [of s] assms(3) by auto
next
  case (Call_AddLayer i)
  then show ?thesis using AddLayer_keeps_one_layer [OF assms(2), of i] assms(3) by auto
next
  case (Call_RemoveLayer i)
  then show ?thesis using RemoveLayer_keeps_one_layer [OF assms(2), of i s'] assms(3) by simp
next
  case (Call_SwapLayer i j)
  then show ?thesis using SwapLayer_keeps_one_layer [OF assms(2), of i j] assms(3) by auto
qed

lemma run_scene_calls_invariant:
  assumes "layers s \<noteq> []" and "in_one_layer_at_most s"
  shows "\<exists>s'. run_scene_calls cs s = Inr s' \<and> layers s' \<noteq> [] \<and> in_one_layer_at_most s'"
  using assms
proof (induction cs arbitrary: s)
  case Nil
  then show ?case by simp
next
  case (Cons c cs)
  from run_scene_call_nonempty [OF Cons.prems(1), of c]
  obtain s1 where s1: "run_scene_call c s = Inr s1" "layers s1 \<noteq> []" by blast
  have "in_one_layer_at_most s1"
    using run_scene_call_one_layer [OF Cons.prems s1(1)] .
  from Cons.IH [OF s1(2) this] s1(1) show ?case by simp
qed

lemma GameScene_new_one_layer: "layers GameScene_new \<noteq> [] \<and> in_one_layer_at_most GameScene_new"
  by (simp add: GameScene_new_def in_one_layer_at_most_def layers_of_def)


text \<open>
  C8. Whatever calls (Add, Remove, ClearLayer, Clear, AddLayer, RemoveLayer, SwapLayer)
  were made on a scene since its construction, they all returned, no object is in two
  layers of it, and a following \<^verbatim>\<open>Add(obj, layer)\<close> returns with \<open>obj\<close> in exactly one
  layer: the one the index resolves to, the last layer for a negative or too large
  index. The number of layers stays as it was and still no object is in two layers.
\<close>

theorem Add_in_exactly_one_layer:
  "\<exists>s. run_scene_calls cs GameScene_new = Inr s \<and> in_one_layer_at_most s
     \<and> (\<exists>s'. Add (Some a) layer s = Inr s'
           \<and> layers_of a s' = [target_layer layer s]
           \<and> CountLayer s' = CountLayer s
           \<and> in_one_layer_at_most s')"
proof -
  from run_scene_calls_invariant [of GameScene_new cs] GameScene_new_one_layer
  obtain s where s: "run_scene_calls cs GameScene_new = Inr s" "layers s \<noteq> []"
    "in_one_layer_at_most s" by blast
  from Add_total [OF s(2), of "Some a" layer]
  obtain s' where s': "Add (Some a) layer s = Inr s'" "length (layers s') = length (layers s)"
    by blast
  have "layers_of a s' = [target_layer layer s]"
    using Add_layers_of [OF s(2) s'(1)] .
  moreover have "in_one_layer_at_most s'"
    using Add_keeps_one_layer [OF s(2) s(3) s'(1)] .
  ultimately show ?thesis using s s' by (simp add: CountLayer_def)
qed

theorem Add_in_exactly_one_layer_witness:
  "run_scene_calls [Call_AddLayer (- 1), Call_Add (Some 7) 0, Call_Add (Some 8) 5] GameScene_new
     = Inr \<lparr>layers = [{7}, {8}]\<rparr>
   \<and> Add (Some 7) (- 1) \<lparr>layers = [{7}, {8}]\<rparr> = Inr \<lparr>layers = [{}, {7, 8}]\<rparr>
   \<and> layers_of 7 \<lparr>layers = [{}, {7, 8}]\<rparr> = [1]
   \<and> in_one_layer_at_most \<lparr>layers = [{}, {7, 8}]\<rparr>"
proof -
  have run: "run_scene_calls [Call_AddLayer (- 1), Call_Add (Some 7) 0, Call_Add (Some 8) 5] GameScene_new
     = Inr \<lparr>layers = [{7}, {8}]\<rparr>"
    by (simp add: GameScene_new_def AddLayer_def Add_def vector_at_def Let_def)
  have add: "Add (Some 7) (- 1) \<lparr>layers = [{7}, {8}]\<rparr> = Inr \<lparr>layers = [{}, {7, 8}]\<rparr>"
    by (auto simp: Add_def vector_at_def Let_def)
  from Add_in_exactly_one_layer
    [of "[Call_AddLayer (- 1), Call_Add (Some 7) 0, Call_Add (Some 8) 5]" 7 "- 1"]
  show ?thesis
    unfolding run using add by (auto simp: target_layer_def)
qed

text \<open>
  C10. What \<^verbatim>\<open>Count(layer_index)\<close> does: for an index inside the vector it returns 0
  whatever the layer holds, and for a negative or too large index it reads
  \<^verbatim>\<open>__layers[layer_index]\<close>, outside the vector. The test of the conditional is the
  one \<^verbatim>\<open>ClearLayer\<close> uses to return early, with the branches the other way round.
\<close>

theorem Count_layer_branches_swapped:
  "(0 \<le> i \<and> i < int (CountLayer s) \<longrightarrow> Count_layer i s = Inr 0)
   \<and> (i < 0 \<or> int (CountLayer s) \<le> i \<longrightarrow> Count_layer i s = Inl IndexOutOfRange)"
  by (auto simp: Count_layer_def CountLayer_def vector_at_def)

theorem Count_layer_branches_swapped_witness:
  "Count_layer 0 \<lparr>layers = [{7}]\<rparr> = Inr 0
   \<and> card (layers \<lparr>layers = [{7}]\<rparr> ! 0) = 1
   \<and> Count_layer (- 1) \<lparr>layers = [{7}]\<rparr> = Inl IndexOutOfRange"
  using Count_layer_branches_swapped [of 0 "\<lparr>layers = [{7}]\<rparr>"]
    Count_layer_branches_swapped [of "- 1" "\<lparr>layers = [{7}]\<rparr>"]
  by (simp add: CountLayer_def)

section \<open>Constructing a Game Scene\<close>

text \<open>
  C9. Outside \<^verbatim>\<open>Initialize\<close>/\<^verbatim>\<open>Deinitialize\<close> (the flag \<^verbatim>\<open>__is_initialize\<close> is clear)
  and with no current scene or an empty registry, the constructor throws
  \<^verbatim>\<open>std::runtime_error\<close> and the statics are as before: nothing is registered. When
  the flag is set or the subsystem is initialized, it returns and the new scene is in
  the registry. The other entry points that depend on the initialization do not raise:
  before it, \<^verbatim>\<open>GetCurrentScene\<close> returns null and \<^verbatim>\<open>SetCurrentScene\<close> changes nothing.
\<close>

theorem GameScene_ctor_throws_iff_not_initialized:
  "(\<not> is_initialize st \<and> (curr_scene st = None \<or> created_scenes st = {})
      \<longrightarrow> GameScene_ctor this st = (Some (runtime_error not_initialized_message), st))
   \<and> (is_initialize st \<or> IsInitialized st
      \<longrightarrow> GameScene_ctor this st
          = (None, st\<lparr>created_scenes := insert this (created_scenes st)\<rparr>))
   \<and> (\<not> IsInitialized st \<longrightarrow> GetCurrentScene st = None \<and> SetCurrentScene scene st = st)"
  by (auto simp: GameScene_ctor_def IsInitialized_def GetCurrentScene_def SetCurrentScene_def)

theorem GameScene_ctor_throws_iff_not_initialized_witness:
  "GameScene_ctor 5 SceneStatics_initial
     = (Some (runtime_error not_initialized_message), SceneStatics_initial)
   \<and> GetCurrentScene SceneStatics_initial = None
   \<and> SetCurrentScene (Some 5) SceneStatics_initial = SceneStatics_initial
   \<and> Initialize 1 SceneStatics_initial
     = (True, \<lparr>is_initialize = False, curr_scene = Some 1, created_scenes = {1}\<rparr>)
   \<and> GameScene_ctor 5 \<lparr>is_initialize = False, curr_scene = Some 1, created_scenes = {1}\<rparr>
     = (None, \<lparr>is_initialize = False, curr_scene = Some 1, created_scenes = {5, 1}\<rparr>)"
  using GameScene_ctor_throws_iff_not_initialized [of SceneStatics_initial 5 "Some 5"]
    GameScene_ctor_throws_iff_not_initialized
      [of "\<lparr>is_initialize = False, curr_scene = Some 1, created_scenes = {1}\<rparr>" 5 None]
  by (simp add: SceneStatics_initial_def IsInitialized_def Initialize_def GameScene_ctor_def)

section \<open>The tree of Game Objects\<close>

lemma heap_new_matches: "parent_matches_childs heap_new"
  by (simp add: parent_matches_childs_def heap_new_def GameObject_new_def)

lemma SetParent_erase_no_member:
  assumes "parent_matches_childs h"
  shows "this \<notin> childs (SetParent_erase this h q)"
proof -
  have key: "parent (h n) = Some p" if "n \<in> childs (h p)" for n p
    using assms that by (simp add: parent_matches_childs_def)
  show ?thesis
    by (auto simp: SetParent_erase_def split: option.splits dest: key)
qed

lemma SetParent_erase_others:
  "n \<noteq> this \<Longrightarrow> (n \<in> childs (SetParent_erase this h q)) = (n \<in> childs (h q))"
  by (auto simp: SetParent_erase_def split: option.splits)

lemma SetParent_erase_parent: "parent (SetParent_erase this h n) = parent (h n)"
  by (auto simp: SetParent_erase_def split: option.splits)

lemma SetParent_assign_childs: "childs (SetParent_assign this p h q) = childs (h q)"
  by (simp add: SetParent_assign_def)

lemma SetParent_assign_parent:
  "parent (SetParent_assign this p h n) = (if n = this then p else parent (h n))"
  by (simp add: SetParent_assign_def)

lemma SetParent_insert_childs:
  "childs (SetParent_insert this p h q) = (if p = Some q then insert this (childs (h q)) else childs (h q))"
  by (auto simp: SetParent_insert_def split: option.splits)

lemma SetParent_insert_parent: "parent (SetParent_insert this p h n) = parent (h n)"
  by (auto simp: SetParent_insert_def split: option.splits)

lemma SetParent_member:
  assumes "parent_matches_childs h"
  shows "(n \<in> childs (SetParent this p h q)) = (if n = this then p = Some q else n \<in> childs (h q))"
  using SetParent_erase_no_member [OF assms, of this q]
  by (simp add: SetParent_def SetParent_insert_childs SetParent_assign_childs SetParent_erase_others)

lemma SetParent_parent:
  "parent (SetParent this p h n) = (if n = this then p else parent (h n))"
  by (simp add: SetParent_def SetParent_insert_parent SetParent_assign_parent SetParent_erase_parent)

lemma SetParent_matches:
  assumes "parent_matches_childs h"
  shows "parent_matches_childs (SetParent this p h)"
  unfolding parent_matches_childs_def
proof (intro allI)
  fix n q
  show "(parent (SetParent this p h n) = Some q) = (n \<in> childs (SetParent this p h q))"
    using assms
    by (simp add: SetParent_member [OF assms] SetParent_parent parent_matches_childs_def)
qed

lemma run_tree_call_matches:
  assumes "parent_matches_childs h" and "run_tree_call c h = Inr h'"
  shows "parent_matches_childs h'"
  using assms
  by (cases c)
    (auto simp: SetParent_matches AddChild_def DetachParent_def DetachChild_def split: option.splits)

lemma run_tree_call_fails:
  assumes "run_tree_call c h = Inl e"
  shows "e = NullDereference \<and> (\<exists>this. c = Call_DetachChild this None)"
  using assms by (cases c) (auto simp: DetachChild_def split: option.splits)

lemma run_tree_calls_matches:
  assumes "parent_matches_childs h" and "run_tree_calls cs h = Inr h'"
  shows "parent_matches_childs h'"
  using assms
proof (induction cs arbitrary: h)
  case Nil
  then show ?case by simp
next
  case (Cons c cs)
  then show ?case
    by (auto split: sum.splits dest: run_tree_call_matches)
qed

lemma run_tree_calls_fails:
  assumes "run_tree_calls cs h = Inl e"
  shows "e = NullDereference \<and> (\<exists>this. Call_DetachChild this None \<in> set cs)"
  using assms
proof (induction cs arbitrary: h)
  case Nil
  then show ?case by simp
next
  case (Cons c cs)
  show ?case
  proof (cases "run_tree_call c h")
    case (Inl e')
    with Cons.prems run_tree_call_fails [OF Inl] show ?thesis by auto
  next
    case (Inr h')
    with Cons.prems Cons.IH [of h'] show ?thesis by auto
  qed
qed

text \<open>
  C1. From a store in which the parent pointers and the child sets agree (every object
  just constructed, for one), after any sequence of SetParent, AddChild, DetachParent and
  DetachChild calls that returns: an object with parent \<open>P\<close> is in the child set of \<open>P\<close>,
  and no object is in the child sets of two different objects. Inside a following
  \<^verbatim>\<open>SetParent\<close>, after the erase and after the assignment the object is in no child set
  at all, and after the insert it is in the child set of the new parent only. The only
  call that does not return is a \<^verbatim>\<open>DetachChild\<close> of a null pointer.
\<close>

theorem parent_and_childs_agree:
  assumes "parent_matches_childs h0"
  shows "(run_tree_calls cs h0 = Inl e
            \<longrightarrow> e = NullDereference \<and> (\<exists>this. Call_DetachChild this None \<in> set cs))
       \<and> (run_tree_calls cs h0 = Inr h \<longrightarrow>
            (\<forall>N P. parent (h N) = Some P \<longrightarrow> N \<in> childs (h P))
          \<and> (\<forall>N P1 P2. N \<in> childs (h P1) \<and> N \<in> childs (h P2) \<longrightarrow> P1 = P2)
          \<and> (\<forall>this p q. this \<notin> childs (SetParent_erase this h q)
                      \<and> this \<notin> childs (SetParent_assign this p (SetParent_erase this h) q)
                      \<and> (this \<in> childs (SetParent this p h q)) = (p = Some q)))"
proof (intro conjI impI)
  assume "run_tree_calls cs h0 = Inl e"
  from run_tree_calls_fails [OF this]
  show "e = NullDereference" and "\<exists>this. Call_DetachChild this None \<in> set cs" by simp_all
next
  assume "run_tree_calls cs h0 = Inr h"
  from run_tree_calls_matches [OF assms this]
  have m: "parent_matches_childs h" .
  then show "\<forall>N P. parent (h N) = Some P \<longrightarrow> N \<in> childs (h P)"
    by (simp add: parent_matches_childs_def)
  from m show "\<forall>N P1 P2. N \<in> childs (h P1) \<and> N \<in> childs (h P2) \<longrightarrow> P1 = P2"
    by (metis option.inject parent_matches_childs_def)
  show "\<forall>this p q. this \<notin> childs (SetParent_erase this h q)
                      \<and> this \<notin> childs (SetParent_assign this p (SetParent_erase this h) q)
                      \<and> (this \<in> childs (SetParent this p h q)) = (p = Some q)"
    using SetParent_erase_no_member [OF m] SetParent_member [OF m]
    by (simp add: SetParent_assign_childs)
qed

theorem parent_and_childs_agree_witness:
  "\<exists>h. run_tree_calls [Call_AddChild 1 (Some 2), Call_SetParent 2 (Some 3)] heap_new = Inr h
      \<and> parent (h 2) = Some 3 \<and> 2 \<in> childs (h 3) \<and> 2 \<notin> childs (h 1)
      \<and> 2 \<notin> childs (SetParent_erase 2 h 3) \<and> 2 \<in> childs (SetParent 2 (Some 1) h 1)"
proof -
  let ?h = "SetParent 2 (Some 3) (AddChild 1 (Some 2) heap_new)"
  have run: "run_tree_calls [Call_AddChild 1 (Some 2), Call_SetParent 2 (Some 3)] heap_new = Inr ?h"
    by simp
  have p: "parent (?h 2) = Some 3"
    by (simp add: SetParent_parent)
  from parent_and_childs_agree [OF heap_new_matches,
      of "[Call_AddChild 1 (Some 2), Call_SetParent 2 (Some 3)]" NullDereference ?h] run
  have a: "\<forall>N P. parent (?h N) = Some P \<longrightarrow> N \<in> childs (?h P)"
    and b: "\<forall>N P1 P2. N \<in> childs (?h P1) \<and> N \<in> childs (?h P2) \<longrightarrow> P1 = P2"
    and c: "\<forall>this p q. this \<notin> childs (SetParent_erase this ?h q)
                      \<and> this \<notin> childs (SetParent_assign this p (SetParent_erase this ?h) q)
                      \<and> (this \<in> childs (SetParent this p ?h q)) = (p = Some q)"
    by simp_all
  from a p have m: "2 \<in> childs (?h 3)" by blast
  from b m have "2 \<notin> childs (?h 1)" by force
  with run p m c show ?thesis by auto
qed

section \<open>The order of the update hooks\<close>

lemma update_tree_childs:
  "childs (update_tree n) = (if n = 1 then {2, 3} else if n = 2 then {4} else {})"
  by (auto simp: update_tree_def AddChild_def SetParent_def SetParent_insert_def
      SetParent_assign_def SetParent_erase_def heap_new_def GameObject_new_def)

lemma update_tree_scripts: "scripts (update_tree n) = []"
  by (simp add: update_tree_def AddChild_def SetParent_def SetParent_insert_def
      SetParent_assign_def SetParent_erase_def heap_new_def GameObject_new_def)

lemma script_calls_Nil: "script_calls f this [] = []"
  by (simp add: script_calls_def)

lemma distinct_pair:
  assumes "set xs = {a, b}" and "distinct xs" and "a \<noteq> b"
  shows "xs = [a, b] \<or> xs = [b, a]"
proof -
  have "length xs = 2"
    using assms distinct_card [of xs] by simp
  then obtain x y where xs: "xs = [x, y]"
    by (metis (no_types) One_nat_def Suc_1 length_0_conv length_Suc_conv)
  with assms show ?thesis by (auto simp: doubleton_eq_iff)
qed

lemma distinct_single:
  assumes "set xs = {a}" and "distinct xs"
  shows "xs = [a]"
proof -
  have "length xs = 1"
    using assms distinct_card [of xs] by simp
  then obtain x where "xs = [x]"
    by (metis One_nat_def length_0_conv length_Suc_conv)
  with assms show ?thesis by simp
qed

lemma update_tree_visits:
  assumes "visits_childs update_tree visit"
  shows "(visit 1 = [2, 3] \<or> visit 1 = [3, 2]) \<and> visit 2 = [4] \<and> visit 3 = [] \<and> visit 4 = []"
proof -
  have v: "set (visit n) = childs (update_tree n)" "distinct (visit n)" for n
    using assms by (simp_all add: visits_childs_def)
  have "set (visit 1) = {2, 3}" using v(1) [of 1] by (simp add: update_tree_childs)
  then have 1: "visit 1 = [2, 3] \<or> visit 1 = [3, 2]"
    using v(2) [of 1] by (intro distinct_pair) simp_all
  have "set (visit 2) = {4}" using v(1) [of 2] by (simp add: update_tree_childs)
  then have 2: "visit 2 = [4]" using v(2) [of 2] by (rule distinct_single)
  have 3: "visit 3 = []" using v(1) [of 3] by (simp add: update_tree_childs)
  have 4: "visit 4 = []" using v(1) [of 4] by (simp add: update_tree_childs)
  from 1 2 3 4 show ?thesis by simp
qed

lemma leaf_update:
  "visit n = [] \<Longrightarrow> RaiseUpdateEvent (Suc d) visit update_tree n True
     = Some [GameObject_OnUpdate n, UpdateEvent_Call n]"
  by (simp add: update_tree_scripts script_calls_Nil)

lemma node2_update:
  assumes "visit 2 = [4]" and "visit 4 = []"
  shows "RaiseUpdateEvent (Suc (Suc d)) visit update_tree 2 True
     = Some [GameObject_OnUpdate 2, UpdateEvent_Call 2, GameObject_OnUpdate 4, UpdateEvent_Call 4]"
  using assms leaf_update [of visit 4 d]
  by (simp add: update_tree_scripts script_calls_Nil del: RaiseUpdateEvent.simps(2))
    (simp add: update_tree_scripts script_calls_Nil)


lemma root_update:
  assumes "visit 1 = [a, b]" and
    "RaiseUpdateEvent (Suc (Suc d)) visit update_tree a True = Some ta" and
    "RaiseUpdateEvent (Suc (Suc d)) visit update_tree b True = Some tb"
  shows "RaiseUpdateEvent (Suc (Suc (Suc d))) visit update_tree 1 True
     = Some ([GameObject_OnUpdate 1, UpdateEvent_Call 1] @ ta @ tb)"
  using assms by (simp add: update_tree_scripts script_calls_Nil)

text \<open>
  C2, as amended. In the tree with root 1, its children 2 and 3 and the child 4 of 2, a
  recursive update from the root calls the update hooks in the order 1, 2, 4, 3 when the
  child set of the root yields 2 before 3, and in the order 1, 3, 2, 4 when it yields 3
  first; the set yields them in one of these two orders. Each child's subtree is updated
  before the next child.
\<close>

theorem update_order_is_visiting_order:
  assumes "visits_childs update_tree visit" and "3 \<le> depth"
  shows "(visit 1 = [2, 3] \<or> visit 1 = [3, 2])
    \<and> (visit 1 = [2, 3] \<longrightarrow>
         map_option OnUpdate_order (RaiseUpdateEvent depth visit update_tree 1 True) = Some [1, 2, 4, 3])
    \<and> (visit 1 = [3, 2] \<longrightarrow>
         map_option OnUpdate_order (RaiseUpdateEvent depth visit update_tree 1 True) = Some [1, 3, 2, 4])"
proof -
  from assms(2) obtain d where depth: "depth = Suc (Suc (Suc d))"
    by (metis Suc_le_D numeral_3_eq_3 Suc_le_mono)
  from update_tree_visits [OF assms(1)]
  have v: "visit 1 = [2, 3] \<or> visit 1 = [3, 2]" "visit 2 = [4]" "visit 3 = []" "visit 4 = []"
    by simp_all
  note t2 = node2_update [where visit = visit and d = d, OF v(2) v(4)]
  note t3 = leaf_update [where visit = visit and n = 3 and d = "Suc d", OF v(3)]
  have "map_option OnUpdate_order (RaiseUpdateEvent depth visit update_tree 1 True) = Some [1, 2, 4, 3]"
    if "visit 1 = [2, 3]"
    unfolding depth root_update [OF that t2 t3] by simp
  moreover
  have "map_option OnUpdate_order (RaiseUpdateEvent depth visit update_tree 1 True) = Some [1, 3, 2, 4]"
    if "visit 1 = [3, 2]"
    unfolding depth root_update [OF that t3 t2] by simp
  ultimately show ?thesis using v(1) by blast
qed

lemma last_added_first_visits: "visits_childs update_tree last_added_first"
  by (auto simp: visits_childs_def update_tree_childs last_added_first_def)

lemma first_added_first_visits: "visits_childs update_tree first_added_first"
  by (auto simp: visits_childs_def update_tree_childs first_added_first_def)

theorem update_order_is_visiting_order_witness:
  "visits_childs update_tree first_added_first \<and> first_added_first 1 = [2, 3]
   \<and> map_option OnUpdate_order (RaiseUpdateEvent 3 first_added_first update_tree 1 True)
       = Some [1, 2, 4, 3]"
  using update_order_is_visiting_order [OF first_added_first_visits, of 3]
    first_added_first_visits
  by (simp add: first_added_first_def)

text \<open>
  C2, as stated, fails: the child set is a \<^verbatim>\<open>std::unordered_set\<close>, which may yield the
  child added last first, and then the order of the hooks is 1, 3, 2, 4.
\<close>

theorem update_order_not_insertion_order:
  "visits_childs update_tree last_added_first
   \<and> map_option OnUpdate_order (RaiseUpdateEvent 3 last_added_first update_tree 1 True)
       = Some [1, 3, 2, 4]"
proof -
  have v: "last_added_first 1 = [3, 2]" "last_added_first 2 = [4]"
    "last_added_first 3 = []" "last_added_first 4 = []"
    by (simp_all add: last_added_first_def)
  have "RaiseUpdateEvent (Suc (Suc (Suc 0))) last_added_first update_tree 1 True
     = Some ([GameObject_OnUpdate 1, UpdateEvent_Call 1]
         @ [GameObject_OnUpdate 3, UpdateEvent_Call 3]
         @ [GameObject_OnUpdate 2, UpdateEvent_Call 2, GameObject_OnUpdate 4, UpdateEvent_Call 4])"
    by (rule root_update [where visit = last_added_first, OF v(1)
          leaf_update [where visit = last_added_first and n = 3, OF v(3)]
          node2_update [where visit = last_added_first, OF v(2) v(4)]])
  then show ?thesis
    using last_added_first_visits by (simp add: numeral_3_eq_3)
qed

lemma script_calls_no_late:
  "Script_OnLateUpdate script n \<notin> set (script_calls Script_OnEarlyUpdate this ss)"
  "Script_OnLateUpdate script n \<notin> set (script_calls Script_OnUpdate this ss)"
  by (auto simp: script_calls_def split: option.splits)

text \<open>
  C3. What \<^verbatim>\<open>RaiseUpdateEvent(false)\<close> does: the early-update hooks of the scripts, the
  object's own hook, the update hooks of the scripts and the Update event, and then it
  returns at \<^verbatim>\<open>if (!recursive) return;\<close>: no late-update hook of any script is called.
\<close>

theorem RaiseUpdateEvent_not_recursive_no_late_update:
  "RaiseUpdateEvent (Suc depth) visit h this False
     = Some (script_calls Script_OnEarlyUpdate this (scripts (h this))
             @ [GameObject_OnUpdate this]
             @ script_calls Script_OnUpdate this (scripts (h this))
             @ [UpdateEvent_Call this])
   \<and> (\<forall>calls script n. RaiseUpdateEvent (Suc depth) visit h this False = Some calls
         \<longrightarrow> Script_OnLateUpdate script n \<notin> set calls)"
  by (auto simp: script_calls_no_late)

theorem RaiseUpdateEvent_not_recursive_no_late_update_witness:
  "RaiseUpdateEvent 1 (\<lambda>n. []) scripted_heap 1 False
     = Some [Script_OnEarlyUpdate 9 1, GameObject_OnUpdate 1, Script_OnUpdate 9 1, UpdateEvent_Call 1]
   \<and> RaiseUpdateEvent 1 (\<lambda>n. []) scripted_heap 1 True
     = Some [Script_OnEarlyUpdate 9 1, GameObject_OnUpdate 1, Script_OnUpdate 9 1, UpdateEvent_Call 1,
             Script_OnLateUpdate 9 1]"
  using RaiseUpdateEvent_not_recursive_no_late_update [of 0 "\<lambda>n. []" scripted_heap 1]
  by (simp add: scripted_heap_def script_calls_def)

lemma mouse_tree_at_objects:
  "mouse_tree_at p n =
     (if n = 1 then GameObject_new\<lparr>Position := p,
                                   Size := \<lparr>Size.Width = 100, Size.Height = 100\<rparr>, childs := {2}\<rparr>
      else if n = 2 then GameObject_new\<lparr>Position := \<lparr>Point.X = 10, Point.Y = 10\<rparr>,
                                Size := \<lparr>Size.Width = 20, Size.Height = 20\<rparr>, parent := Some 1\<rparr>
      else GameObject_new)"
  by (simp add: mouse_tree_at_def AddChild_def SetParent_def SetParent_insert_def
      SetParent_assign_def SetParent_erase_def heap_new_def GameObject_new_def)

lemma mouse_tree_at_visits:
  assumes "visits_childs (mouse_tree_at p) visit"
  shows "visit 1 = [2] \<and> visit 2 = []"
proof -
  have v: "set (visit n) = childs (mouse_tree_at p n)" "distinct (visit n)" for n
    using assms by (simp_all add: visits_childs_def)
  have "set (visit 1) = {2}" using v(1) [of 1] by (simp add: mouse_tree_at_objects)
  then have "visit 1 = [2]" using v(2) [of 1] by (rule distinct_single)
  moreover have "visit 2 = []"
    using v(1) [of 2] by (simp add: mouse_tree_at_objects GameObject_new_def)
  ultimately show ?thesis by simp
qed

lemma root_contains:
  "IsContain (Rectangle_of Point_Zero (Size (mouse_tree_at p 1))) \<lparr>Point.X = 15, Point.Y = 15\<rparr>"
  by (simp add: mouse_tree_at_objects IsContain_def Rectangle_of_def Point_Zero_def LeftSide_def
      RightSide_def TopSide_def BottomSide_def word_sle_eq word_sless_alt)

lemma child_rectangle:
  "Rectangle_of Point_Zero (Size (mouse_tree_at p 2)) = \<lparr>X = 0, Y = 0, Width = 20, Height = 20\<rparr>"
  by (simp add: mouse_tree_at_objects Rectangle_of_def Point_Zero_def)

lemma child_area:
  "LocalToGlobal (GetArea (mouse_tree_at p 1)) (GetArea (mouse_tree_at p 2))
       (Alignment (mouse_tree_at p 2))
     = \<lparr>X = Point.X p + 10, Y = Point.Y p + 10, Width = 20, Height = 20\<rparr>"
  by (simp add: mouse_tree_at_objects GetArea_def GameObject_new_def Rectangle_of_def
      LeftSide_def TopSide_def abs_c_def word_sless_alt)

lemma child_position:
  "Point_minus \<lparr>Point.X = 15, Point.Y = 15\<rparr>
       (TopLeft_corner \<lparr>X = Point.X p + 10, Y = Point.Y p + 10, Width = 20, Height = 20\<rparr>)
     = \<lparr>Point.X = 5 - Point.X p, Point.Y = 5 - Point.Y p\<rparr>"
  by (simp add: Point_minus_def TopLeft_corner_def LeftSide_def TopSide_def word_sless_alt)

lemma child_flags: "Enabled (mouse_tree_at p 2) \<and> HandleInput (mouse_tree_at p 2)"
  by (simp add: mouse_tree_at_objects GameObject_new_def)

text \<open>
  C7. What the recursive mouse-down of the example does with the root placed at \<open>p\<close>: the
  four hooks of the root are called with the arguments given, local position (15, 15), and
  the hooks of the child with a copy whose local position is (5 - X of p, 5 - Y of p). The
  child's area is computed against \<^verbatim>\<open>GetArea()\<close> of the root, which carries the root's own
  position, although the position of the arguments is already relative to the root: the
  hit test of the same function uses \<^verbatim>\<open>Rectangle(Point::Zero, Size)\<close>, and so does the
  window's dispatch with \<^verbatim>\<open>Rectangle(Point::Zero, Window::GetSize())\<close>. The child gets (5, 5)
  for a root at (0, 0) only; for a root at (3, 4), clicked at (18, 19) in the window, it
  gets (2, 1).
\<close>

theorem mouse_down_subtracts_parent_position:
  assumes "visits_childs (mouse_tree_at p) visit" and "2 \<le> depth"
    and "LocalPosition args = \<lparr>Point.X = 15, Point.Y = 15\<rparr>"
  shows "RaiseMouseDownEvent depth visit (mouse_tree_at p) 1 (Some args) True
     = Some ([OnGlobalMouseDown 1 args, GlobalMouseDownEvent_Call 1 args,
              OnMouseDown 1 args, MouseDownEvent_Call 1 args]
        @ [OnGlobalMouseDown 2
             (args\<lparr>LocalPosition := \<lparr>Point.X = 5 - Point.X p, Point.Y = 5 - Point.Y p\<rparr>\<rparr>),
           GlobalMouseDownEvent_Call 2
             (args\<lparr>LocalPosition := \<lparr>Point.X = 5 - Point.X p, Point.Y = 5 - Point.Y p\<rparr>\<rparr>)]
        @ (if IsContain \<lparr>X = 0, Y = 0, Width = 20, Height = 20\<rparr>
                \<lparr>Point.X = 5 - Point.X p, Point.Y = 5 - Point.Y p\<rparr>
           then [OnMouseDown 2
                   (args\<lparr>LocalPosition := \<lparr>Point.X = 5 - Point.X p, Point.Y = 5 - Point.Y p\<rparr>\<rparr>),
                 MouseDownEvent_Call 2
                   (args\<lparr>LocalPosition := \<lparr>Point.X = 5 - Point.X p, Point.Y = 5 - Point.Y p\<rparr>\<rparr>)]
           else []))"
proof -
  from assms(2) obtain d where depth: "depth = Suc (Suc d)"
    by (metis Suc_le_D numeral_2_eq_2 Suc_le_mono)
  from mouse_tree_at_visits [OF assms(1)] have v: "visit 1 = [2]" "visit 2 = []" by simp_all
  let ?child_args = "args\<lparr>LocalPosition := \<lparr>Point.X = 5 - Point.X p, Point.Y = 5 - Point.Y p\<rparr>\<rparr>"
  have child: "RaiseMouseDownEvent (Suc d) visit (mouse_tree_at p) 2 (Some ?child_args) True
     = Some ([OnGlobalMouseDown 2 ?child_args, GlobalMouseDownEvent_Call 2 ?child_args]
          @ (if IsContain \<lparr>X = 0, Y = 0, Width = 20, Height = 20\<rparr>
                  \<lparr>Point.X = 5 - Point.X p, Point.Y = 5 - Point.Y p\<rparr>
             then [OnMouseDown 2 ?child_args, MouseDownEvent_Call 2 ?child_args] else []))"
    using v(2) by (simp add: Let_def child_rectangle)
  show ?thesis
    unfolding depth
    using v(1) root_contains [of p] child_flags [of p] child child_area [of p] child_position [of p]
      assms(3)
    by (simp del: RaiseMouseDownEvent.simps add: RaiseMouseDownEvent.simps(2) [of "Suc d"] Let_def)
qed

theorem mouse_down_subtracts_parent_position_witness:
  "window_mouse_down_args \<lparr>Size.Width = 800, Size.Height = 500\<rparr>
      (mouse_tree_at \<lparr>Point.X = 3, Point.Y = 4\<rparr> 1) (mouse_args_at 18 19)
     = mouse_args_at 15 15
   \<and> RaiseMouseDownEvent 2 root_then_child (mouse_tree_at \<lparr>Point.X = 3, Point.Y = 4\<rparr>) 1
        (Some (mouse_args_at 15 15)) True
     = Some [OnGlobalMouseDown 1 (mouse_args_at 15 15),
             GlobalMouseDownEvent_Call 1 (mouse_args_at 15 15),
             OnMouseDown 1 (mouse_args_at 15 15),
             MouseDownEvent_Call 1 (mouse_args_at 15 15),
             OnGlobalMouseDown 2 (mouse_args_at 2 1),
             GlobalMouseDownEvent_Call 2 (mouse_args_at 2 1),
             OnMouseDown 2 (mouse_args_at 2 1),
             MouseDownEvent_Call 2 (mouse_args_at 2 1)]
   \<and> RaiseMouseDownEvent 2 root_then_child (mouse_tree_at Point_Zero) 1
        (Some (mouse_args_at 15 15)) True
     = Some [OnGlobalMouseDown 1 (mouse_args_at 15 15),
             GlobalMouseDownEvent_Call 1 (mouse_args_at 15 15),
             OnMouseDown 1 (mouse_args_at 15 15),
             MouseDownEvent_Call 1 (mouse_args_at 15 15),
             OnGlobalMouseDown 2 (mouse_args_at 5 5),
             GlobalMouseDownEvent_Call 2 (mouse_args_at 5 5),
             OnMouseDown 2 (mouse_args_at 5 5),
             MouseDownEvent_Call 2 (mouse_args_at 5 5)]"
proof -
  have w: "window_mouse_down_args \<lparr>Size.Width = 800, Size.Height = 500\<rparr>
      (mouse_tree_at \<lparr>Point.X = 3, Point.Y = 4\<rparr> 1) (mouse_args_at 18 19)
     = mouse_args_at 15 15"
    by (simp add: window_mouse_down_args_def mouse_tree_at_objects GetArea_def GameObject_new_def
        Rectangle_of_def Point_Zero_def LeftSide_def TopSide_def abs_c_def word_sless_alt
        Point_minus_def TopLeft_corner_def mouse_args_at_def MouseButtonEventArgs_new_def Let_def)
  have v: "visits_childs (mouse_tree_at p) root_then_child" for p
    by (auto simp: visits_childs_def mouse_tree_at_objects GameObject_new_def root_then_child_def)
  have a: "LocalPosition (mouse_args_at 15 15) = \<lparr>Point.X = 15, Point.Y = 15\<rparr>"
    by (simp add: mouse_args_at_def)
  from mouse_down_subtracts_parent_position [OF v, of 2 "mouse_args_at 15 15"
      "\<lparr>Point.X = 3, Point.Y = 4\<rparr>", OF _ a]
    mouse_down_subtracts_parent_position [OF v, of 2 "mouse_args_at 15 15" Point_Zero, OF _ a] w
  show ?thesis
    by (simp add: IsContain_def LeftSide_def RightSide_def TopSide_def BottomSide_def
        word_sle_eq word_sless_alt mouse_args_at_def Point_Zero_def)
qed

section \<open>The animation state machine\<close>

lemma update_times_append: "update_times (a @ b) = update_times a @ update_times b"
  by (induction a rule: update_times.induct) simp_all

lemma stop_calls_append: "stop_calls (a @ b) = stop_calls a @ stop_calls b"
  by (simp add: stop_calls_def)

text \<open>
  C4, as amended. For a started script and a tick with frame time \<open>dt\<close>: if the elapsed
  time with \<open>dt\<close> added is below the delay, the calls are the delaying hook and event and
  nothing else, so the updating hook is not called, and the script is delaying after the
  tick; if it has reached the delay, the updating hook is called once, with the animation
  time clamp01((elapsed - delay) / duration), and the delaying hook is not called.
\<close>

theorem delaying_tick_does_not_update:
  assumes "is_started s" and "0 < duration s"
  shows "(time s + dt < delay s \<longrightarrow>
            AnimationScript_OnUpdate dt s
              = ([OnDelayAnimation, DelayAnimationEvent_Call], s\<lparr>time := time s + dt\<rparr>)
          \<and> IsDelay (snd (AnimationScript_OnUpdate dt s))
          \<and> update_times (fst (AnimationScript_OnUpdate dt s)) = [])
       \<and> (delay s \<le> time s + dt \<longrightarrow>
            update_times (fst (AnimationScript_OnUpdate dt s))
              = [Clamp01 ((time s + dt - delay s) / duration s)]
          \<and> OnDelayAnimation \<notin> set (fst (AnimationScript_OnUpdate dt s)))"
  using assms
  by (auto simp: AnimationScript_OnUpdate_def Let_def IsDelay_def InverseLinear_def)

theorem delaying_tick_does_not_update_witness:
  "AnimationScript_OnUpdate (1 / 2) (timing_script\<lparr>time := 1\<rparr>)
     = ([OnStartAnimation, StartAnimationEvent_Call, OnUpdateAnimation (1 / 4), UpdateAnimationEvent_Call],
        timing_script\<lparr>time := 3 / 2, is_played := True\<rparr>)
   \<and> update_times (fst (AnimationScript_OnUpdate (1 / 2) (timing_script\<lparr>time := 1\<rparr>))) = [1 / 4]"
  using delaying_tick_does_not_update [of "timing_script\<lparr>time := 1\<rparr>" "1 / 2"]
  by (simp add: timing_script_def PlayAnimation_def SetDuration_def SetDelay_def
      AnimationScript_new_def AnimationScript_OnUpdate_def Let_def InverseLinear_def Clamp01_def)

text \<open>
  C4, as stated, fails: the script of the timing example is started and, ticked by half
  a second, is delaying; the tick calls the delaying hook and event and returns, and the
  updating hook is not called.
\<close>

theorem delaying_tick_counterexample:
  "IsStarted timing_script
   \<and> AnimationScript_OnUpdate (1 / 2) timing_script
     = ([OnDelayAnimation, DelayAnimationEvent_Call], timing_script\<lparr>time := 1 / 2\<rparr>)
   \<and> IsDelay (timing_script\<lparr>time := 1 / 2\<rparr>)
   \<and> update_times [OnDelayAnimation, DelayAnimationEvent_Call] = []"
  by (simp add: timing_script_def PlayAnimation_def SetDuration_def SetDelay_def
      AnimationScript_new_def AnimationScript_OnUpdate_def Let_def IsDelay_def IsStarted_def)

lemma tick_running:
  assumes "running s T" and "T + d \<le> 3"
  shows "running (snd (AnimationScript_OnUpdate d s)) (T + d)
    \<and> stop_calls (fst (AnimationScript_OnUpdate d s)) = []
    \<and> (1 \<le> T + d \<longrightarrow> update_times (fst (AnimationScript_OnUpdate d s)) = [Clamp01 ((T + d - 1) / 2)])"
  using assms
  by (auto simp: running_def AnimationScript_OnUpdate_def Let_def stop_calls_def InverseLinear_def)

lemma tick_stop:
  assumes "running s T" and "3 < T + d"
  shows "stopped (snd (AnimationScript_OnUpdate d s))
    \<and> stop_calls (fst (AnimationScript_OnUpdate d s))
        = [OnStopAnimation, StopAnimationEvent_Call]"
  using assms
  by (auto simp: running_def stopped_def AnimationScript_OnUpdate_def Let_def stop_calls_def
      ResetAnimation_def)

lemma run_stopped: "stopped s \<Longrightarrow> run_ticks ds s = ([], s)"
  by (induction ds) (simp_all add: stopped_def AnimationScript_OnUpdate_def)

lemma run_ticks_Cons:
  "fst (run_ticks (d # ds) s)
     = fst (AnimationScript_OnUpdate d s) @ fst (run_ticks ds (snd (AnimationScript_OnUpdate d s)))"
  "snd (run_ticks (d # ds) s) = snd (run_ticks ds (snd (AnimationScript_OnUpdate d s)))"
  by (simp_all split: prod.splits)

lemma run_running:
  assumes "running s T" and "\<forall>d\<in>set ds. 0 \<le> d" and "T \<le> 3"
  shows "(T + sum_list ds \<le> 3 \<longrightarrow>
            running (snd (run_ticks ds s)) (T + sum_list ds)
          \<and> stop_calls (fst (run_ticks ds s)) = []
          \<and> (ds \<noteq> [] \<and> 1 \<le> T + sum_list ds \<longrightarrow>
               update_times (fst (run_ticks ds s)) \<noteq> []
             \<and> last (update_times (fst (run_ticks ds s))) = Clamp01 ((T + sum_list ds - 1) / 2)))
       \<and> (3 < T + sum_list ds \<longrightarrow>
            stopped (snd (run_ticks ds s))
          \<and> stop_calls (fst (run_ticks ds s)) = [OnStopAnimation, StopAnimationEvent_Call])"
  using assms
proof (induction ds arbitrary: s T)
  case Nil
  then show ?case by (simp add: stop_calls_def)
next
  case (Cons d ds)
  let ?s1 = "snd (AnimationScript_OnUpdate d s)"
  let ?c1 = "fst (AnimationScript_OnUpdate d s)"
  have nonneg: "0 \<le> d" "\<forall>d\<in>set ds. 0 \<le> d" "0 \<le> sum_list ds"
    using Cons.prems(2) by (simp_all add: sum_list_nonneg)
  show ?case
  proof (cases "T + d \<le> 3")
    case le: True
    from tick_running [OF Cons.prems(1) le]
    have t: "running ?s1 (T + d)" "stop_calls ?c1 = []"
      "1 \<le> T + d \<longrightarrow> update_times ?c1 = [Clamp01 ((T + d - 1) / 2)]"
      by simp_all
    note IH = Cons.IH [OF t(1) nonneg(2) le]
    show ?thesis
    proof (cases "ds = []")
      case True
      with t le show ?thesis
        by (simp add: run_ticks_Cons del: run_ticks.simps(2))
    next
      case False
      with IH t(2) show ?thesis
        by (simp add: run_ticks_Cons update_times_append stop_calls_append add.assoc
            del: run_ticks.simps(2))
    qed
  next
    case False
    then have over: "3 < T + d" by simp
    from tick_stop [OF Cons.prems(1) over]
    have t: "stopped ?s1" "stop_calls ?c1 = [OnStopAnimation, StopAnimationEvent_Call]"
      by simp_all
    have "3 < T + sum_list (d # ds)" using over nonneg(3) by simp
    then show ?thesis
      using t by (simp add: run_ticks_Cons run_stopped stop_calls_def del: run_ticks.simps(2))
  qed
qed

lemma timing_script_running: "running (timing_script\<lparr>ResetOnFinish := r\<rparr>) 0"
  by (simp add: running_def timing_script_def PlayAnimation_def SetDuration_def SetDelay_def
      AnimationScript_new_def)

lemma running_flags:
  "running s T \<Longrightarrow> IsStarted s \<and> IsDelay s = (T < 1) \<and> IsPlaying s = (1 \<le> T)"
  by (auto simp: running_def IsStarted_def IsDelay_def IsPlaying_def)

text \<open>
  C5. The script with delay 1 and duration 2 (with either value of \<^verbatim>\<open>ResetOnFinish\<close>
  and \<^verbatim>\<open>Repeated\<close> false), played from elapsed time 0 and ticked with frame times that
  are not negative: when they add up to 0.5 it is delaying and not playing; when they add
  up to 1.5 it is playing and the last call of the updating hook was given 0.25; when
  they add up to more than 3 the stopping hook and the stopping event have been called
  exactly once each and the script is not started.
\<close>

theorem animation_timing:
  assumes "\<forall>d\<in>set ds. 0 \<le> d"
  shows "(sum_list ds = 1 / 2 \<longrightarrow>
            IsDelay (snd (run_ticks ds (timing_script\<lparr>ResetOnFinish := r\<rparr>)))
          \<and> \<not> IsPlaying (snd (run_ticks ds (timing_script\<lparr>ResetOnFinish := r\<rparr>))))
       \<and> (sum_list ds = 3 / 2 \<longrightarrow>
            IsPlaying (snd (run_ticks ds (timing_script\<lparr>ResetOnFinish := r\<rparr>)))
          \<and> update_times (fst (run_ticks ds (timing_script\<lparr>ResetOnFinish := r\<rparr>))) \<noteq> []
          \<and> last (update_times (fst (run_ticks ds (timing_script\<lparr>ResetOnFinish := r\<rparr>)))) = 1 / 4)
       \<and> (3 < sum_list ds \<longrightarrow>
            stop_calls (fst (run_ticks ds (timing_script\<lparr>ResetOnFinish := r\<rparr>)))
              = [OnStopAnimation, StopAnimationEvent_Call]
          \<and> \<not> IsStarted (snd (run_ticks ds (timing_script\<lparr>ResetOnFinish := r\<rparr>))))"
proof -
  let ?s = "timing_script\<lparr>ResetOnFinish := r\<rparr>"
  note R = run_running [OF timing_script_running assms, of r, simplified]
  have a: "IsDelay (snd (run_ticks ds ?s)) \<and> \<not> IsPlaying (snd (run_ticks ds ?s))"
    if "sum_list ds = 1 / 2"
    using R that running_flags [of "snd (run_ticks ds ?s)" "1 / 2"] by simp
  have b: "IsPlaying (snd (run_ticks ds ?s)) \<and> update_times (fst (run_ticks ds ?s)) \<noteq> []
      \<and> last (update_times (fst (run_ticks ds ?s))) = 1 / 4"
    if "sum_list ds = 3 / 2"
  proof -
    have "ds \<noteq> []" using that by auto
    then show ?thesis
      using R that running_flags [of "snd (run_ticks ds ?s)" "3 / 2"]
      by (simp add: Clamp01_def)
  qed
  have c: "stop_calls (fst (run_ticks ds ?s)) = [OnStopAnimation, StopAnimationEvent_Call]
      \<and> \<not> IsStarted (snd (run_ticks ds ?s))"
    if "3 < sum_list ds"
    using R that by (simp add: stopped_def IsStarted_def)
  from a b c show ?thesis by blast
qed

theorem animation_timing_witness:
  "IsDelay (snd (run_ticks [1 / 2] timing_script))
   \<and> \<not> IsPlaying (snd (run_ticks [1 / 2] timing_script))
   \<and> IsPlaying (snd (run_ticks [1 / 2, 1] timing_script))
   \<and> update_times (fst (run_ticks [1 / 2, 1] timing_script)) = [1 / 4]
   \<and> stop_calls (fst (run_ticks [1 / 2, 1, 2] timing_script))
       = [OnStopAnimation, StopAnimationEvent_Call]
   \<and> \<not> IsStarted (snd (run_ticks [1 / 2, 1, 2] timing_script))
   \<and> fst (run_ticks [1 / 2, 1, 2, 1] timing_script) = fst (run_ticks [1 / 2, 1, 2] timing_script)"
proof -
  have r: "timing_script\<lparr>ResetOnFinish := True\<rparr> = timing_script"
    by (simp add: timing_script_def PlayAnimation_def SetDuration_def SetDelay_def
        AnimationScript_new_def)
  have u: "update_times (fst (run_ticks [1 / 2, 1] timing_script)) = [1 / 4]"
    by (simp add: timing_script_def PlayAnimation_def SetDuration_def SetDelay_def
        AnimationScript_new_def AnimationScript_OnUpdate_def Let_def InverseLinear_def Clamp01_def)
  have e: "fst (run_ticks [1 / 2, 1, 2, 1] timing_script) = fst (run_ticks [1 / 2, 1, 2] timing_script)"
    by (simp add: timing_script_def PlayAnimation_def SetDuration_def SetDelay_def
        AnimationScript_new_def AnimationScript_OnUpdate_def Let_def InverseLinear_def Clamp01_def
        ResetAnimation_def)
  from animation_timing [of "[1 / 2]" True] animation_timing [of "[1 / 2, 1]" True]
    animation_timing [of "[1 / 2, 1, 2]" True] u e
  show ?thesis unfolding r by simp
qed

end
